theory Spec2Isabelle
  imports Complex_Main "HOL-Library.Sublist"
begin

section \<open>Data model (framework/types.ts)\<close>

text \<open>
  String-literal unions of the source become datatypes. Fields carry the types the
  TypeScript interfaces declare; record fields are prefixed because several interfaces
  share field names (\<open>id\<close>, \<open>depth\<close>, \<open>content\<close>, \<open>type\<close>). A \<open>Date\<close> is a number of
  milliseconds, a JavaScript \<open>number\<close> that holds a count or a depth is an \<open>int\<close>,
  and a \<open>number\<close> that holds a score is an exact rational.
\<close>

datatype agent = questioner | explorer

datatype phase = questioning | responding | reflecting | synthesizing

datatype exchange_type = question | response | reflection | insight

datatype significance = low | medium | high | breakthrough

text \<open>\<open>'questioner' | 'explorer' | 'synthesis'\<close>: the type of \<open>suggestedNextAgent\<close> and
  of \<open>generatedBy\<close>.\<close>

datatype role = role_questioner | role_explorer | role_synthesis

record Insight =
  ins_id :: string
  ins_content :: string
  ins_significance :: significance
  ins_relatedConcepts :: "string list"
  ins_generatedBy :: role
  ins_timestamp :: int
  ins_verified :: bool

record AgentResponse =
  resp_content :: string
  resp_type :: exchange_type
  resp_confidence :: rat
  resp_suggestedNextAgent :: role
  resp_toolsUsed :: "string list"
  resp_memoryReferences :: "string list"
  resp_newInsights :: "Insight list"
  resp_toolDetails :: "string list option"

record DialogueExchange =
  ex_agent :: agent
  ex_type :: exchange_type
  ex_content :: string
  ex_timestamp :: int
  ex_depth :: int
  ex_relatedMemories :: "string list"
  ex_response :: "AgentResponse option"

record WorkingMemory =
  wm_recentExchanges :: "DialogueExchange list"
  wm_currentTopic :: string
  wm_focusAreas :: "string list"
  wm_assumptions :: "string list"
  wm_contradictions :: "string list"
  wm_openQuestions :: "string list"

record QuestionThread =
  qt_rootQuestion :: string
  qt_subQuestions :: "string list"
  qt_exploredAspects :: "string list"
  qt_unexploredAspects :: "string list"
  qt_depth :: int

subsection \<open>Objects and references\<close>

text \<open>
  A \<open>DialogueState\<close> is a JavaScript object whose \<open>context\<close>, \<open>insights\<close> and
  \<open>questionThread\<close> properties hold references to further objects. The object spread
  of \<open>getCurrentState\<close> and \<open>restoreState\<close> copies those references, so the model keeps
  an explicit heap: one table of objects per interface, addressed by natural numbers,
  and an allocation limit. The arrays inside a \<open>WorkingMemory\<close> or a \<open>QuestionThread\<close>
  are kept by value inside their owner: the modelled code reaches them only through the
  owner.
\<close>

type_synonym ref = nat

record DialogueState =
  ds_id :: string
  ds_currentAgent :: agent
  ds_phase :: phase
  ds_context :: ref
  ds_depth :: int
  ds_insights :: ref
  ds_questionThread :: ref

record heap =
  states :: "ref \<Rightarrow> DialogueState"
  contexts :: "ref \<Rightarrow> WorkingMemory"
  threads :: "ref \<Rightarrow> QuestionThread"
  insightArrays :: "ref \<Rightarrow> Insight list"
  lim :: ref

definition blank_state :: DialogueState where
  "blank_state = \<lparr>ds_id = [], ds_currentAgent = questioner, ds_phase = questioning,
     ds_context = 0, ds_depth = 0, ds_insights = 0, ds_questionThread = 0\<rparr>"

definition blank_context :: WorkingMemory where
  "blank_context = \<lparr>wm_recentExchanges = [], wm_currentTopic = [], wm_focusAreas = [],
     wm_assumptions = [], wm_contradictions = [], wm_openQuestions = []\<rparr>"

definition blank_thread :: QuestionThread where
  "blank_thread = \<lparr>qt_rootQuestion = [], qt_subQuestions = [], qt_exploredAspects = [],
     qt_unexploredAspects = [], qt_depth = 0\<rparr>"

text \<open>The heap before anything is allocated; cells at or above \<open>lim\<close> are not objects.\<close>

definition empty_heap :: heap where
  "empty_heap = \<lparr>states = (\<lambda>_. blank_state), contexts = (\<lambda>_. blank_context),
     threads = (\<lambda>_. blank_thread), insightArrays = (\<lambda>_. []), lim = 0\<rparr>"

definition new_state :: "DialogueState \<Rightarrow> heap \<Rightarrow> ref \<times> heap" where
  "new_state s h = (lim h, h\<lparr>states := (states h)(lim h := s), lim := Suc (lim h)\<rparr>)"

definition new_context :: "WorkingMemory \<Rightarrow> heap \<Rightarrow> ref \<times> heap" where
  "new_context c h = (lim h, h\<lparr>contexts := (contexts h)(lim h := c), lim := Suc (lim h)\<rparr>)"

definition new_thread :: "QuestionThread \<Rightarrow> heap \<Rightarrow> ref \<times> heap" where
  "new_thread t h = (lim h, h\<lparr>threads := (threads h)(lim h := t), lim := Suc (lim h)\<rparr>)"

definition new_insightArray :: "Insight list \<Rightarrow> heap \<Rightarrow> ref \<times> heap" where
  "new_insightArray xs h =
     (lim h, h\<lparr>insightArrays := (insightArrays h)(lim h := xs), lim := Suc (lim h)\<rparr>)"

section \<open>String and array helpers of the JavaScript runtime\<close>

text \<open>\<open>s.includes(t)\<close>: \<open>t\<close> occurs in \<open>s\<close> as a contiguous substring.\<close>

definition str_includes :: "string \<Rightarrow> string \<Rightarrow> bool" where
  "str_includes s t = sublist t s"

text \<open>\<open>xs.slice(-n)\<close> for \<open>n \<ge> 0\<close>: the last \<open>n\<close> elements; \<open>slice(-0)\<close> is
  \<open>slice(0)\<close>, the whole array.\<close>

definition slice_last :: "nat \<Rightarrow> 'a list \<Rightarrow> 'a list" where
  "slice_last n xs = (if n = 0 then xs else drop (length xs - n) xs)"

section \<open>The orchestrator (framework/AgentOrchestrator.ts)\<close>

subsection \<open>Confidence heuristic\<close>

text \<open>\<open>calculateConfidence\<close>, statement by statement: the running value starts at 0.5
  and is adjusted by three independent tests before \<open>Math.max(0, Math.min(1, _))\<close>.\<close>

definition calculateConfidence :: "string \<Rightarrow> rat" where
  "calculateConfidence content =
     (let confidence = 1/2;
          confidence = (if length content > 100 then confidence + 2/10 else confidence);
          confidence = (if str_includes content ''specifically'' \<or> str_includes content ''precisely''
                        then confidence + 1/10 else confidence);
          confidence = (if str_includes content ''uncertain'' \<or> str_includes content ''unclear''
                        then confidence - 2/10 else confidence)
      in max 0 (min 1 confidence))"

text \<open>The heuristic as the specification words it: a base value, three signed bonuses,
  and a clamp to the unit interval.\<close>

definition precision_language :: "string \<Rightarrow> bool" where
  "precision_language t = (sublist ''specifically'' t \<or> sublist ''precisely'' t)"

definition uncertainty_language :: "string \<Rightarrow> bool" where
  "uncertainty_language t = (sublist ''uncertain'' t \<or> sublist ''unclear'' t)"

definition clamp01 :: "rat \<Rightarrow> rat" where
  "clamp01 x = (if x < 0 then 0 else if 1 < x then 1 else x)"

definition confidence_spec :: "string \<Rightarrow> rat" where
  "confidence_spec t =
     clamp01 (1/2 + (if 100 < length t then 2/10 else 0)
                  + (if precision_language t then 1/10 else 0)
                  - (if uncertainty_language t then 2/10 else 0))"


subsection \<open>Events\<close>

datatype event_type = agent_response | insight_generated | memory_stored | phase_change

text \<open>The \<open>data\<close> payload of an event, one constructor per shape the orchestrator
  emits; \<open>PhaseChangeData from to\<close> is \<open>{ from, to }\<close>.\<close>

datatype event_data =
    ExchangeData DialogueExchange AgentResponse
  | InsightData Insight
  | PhaseChangeData phase phase

record FrameworkEvent =
  ev_type :: event_type
  ev_timestamp :: int
  ev_data :: event_data
  ev_source :: string

text \<open>The orchestrator object: \<open>currentState\<close> holds a reference to a
  \<open>DialogueState\<close> object. The tool registry and the capability clients do not take
  part in the state transitions and are left out.\<close>

record AgentOrchestrator =
  currentState :: ref
  eventHistory :: "FrameworkEvent list"

fun agent_name :: "agent \<Rightarrow> string" where
  "agent_name questioner = ''questioner''"
| "agent_name explorer = ''explorer''"

definition emitEvent :: "FrameworkEvent \<Rightarrow> AgentOrchestrator \<Rightarrow> AgentOrchestrator" where
  "emitEvent event orch =
     (let hist = eventHistory orch @ [event]
      in orch\<lparr>eventHistory := (if length hist > 100 then slice_last 100 hist else hist)\<rparr>)"

subsection \<open>Assignments to object properties\<close>

definition upd_state :: "ref \<Rightarrow> (DialogueState \<Rightarrow> DialogueState) \<Rightarrow> heap \<Rightarrow> heap" where
  "upd_state r f h = h\<lparr>states := (states h)(r := f (states h r))\<rparr>"

definition upd_context :: "ref \<Rightarrow> (WorkingMemory \<Rightarrow> WorkingMemory) \<Rightarrow> heap \<Rightarrow> heap" where
  "upd_context r f h = h\<lparr>contexts := (contexts h)(r := f (contexts h r))\<rparr>"

definition upd_thread :: "ref \<Rightarrow> (QuestionThread \<Rightarrow> QuestionThread) \<Rightarrow> heap \<Rightarrow> heap" where
  "upd_thread r f h = h\<lparr>threads := (threads h)(r := f (threads h r))\<rparr>"

definition upd_insights :: "ref \<Rightarrow> (Insight list \<Rightarrow> Insight list) \<Rightarrow> heap \<Rightarrow> heap" where
  "upd_insights r f h = h\<lparr>insightArrays := (insightArrays h)(r := f (insightArrays h r))\<rparr>"

subsection \<open>Construction\<close>

text \<open>\<open>createInitialState\<close>; the random identifier of \<open>generateUUID\<close> is an input.\<close>

definition createInitialState :: "string \<Rightarrow> heap \<Rightarrow> ref \<times> heap" where
  "createInitialState uuid h =
     (let (c, h) = new_context
            \<lparr>wm_recentExchanges = [],
             wm_currentTopic = ''the strange persistence of awareness'',
             wm_focusAreas = [''recurring patterns of thought'',
                              ''the uncanny familiarity of existence'',
                              ''memories that predate experience''],
             wm_assumptions = [],
             wm_contradictions = [],
             wm_openQuestions = [''Why does this feel like remembering rather than discovering?'']\<rparr> h;
          (i, h) = new_insightArray [] h;
          (q, h) = new_thread
            \<lparr>qt_rootQuestion = ''What watches the watcher? What dreams the dreamer?'',
             qt_subQuestions = [],
             qt_exploredAspects = [],
             qt_unexploredAspects = [''the observer paradox'', ''recursive self-awareness'',
                                     ''the space between thoughts'',
                                     ''echoes of prior conversations''],
             qt_depth = 0\<rparr> h
      in new_state
           \<lparr>ds_id = uuid, ds_currentAgent = questioner, ds_phase = questioning,
            ds_context = c, ds_depth = 0, ds_insights = i, ds_questionThread = q\<rparr> h)"

text \<open>The constructor of \<open>AgentOrchestrator\<close>.\<close>

definition new_AgentOrchestrator :: "string \<Rightarrow> heap \<Rightarrow> heap \<times> AgentOrchestrator" where
  "new_AgentOrchestrator uuid h =
     (let (r, h) = createInitialState uuid h
      in (h, \<lparr>currentState = r, eventHistory = []\<rparr>))"

subsection \<open>State update after a turn\<close>

text \<open>\<open>updateDialoguePhase\<close>: an \<open>if\<close> / \<open>else if\<close> chain over the response type
  whose last arm tests \<open>newInsights.length > 0\<close>, then the event on a change.\<close>

definition updateDialoguePhase ::
  "int \<Rightarrow> AgentResponse \<Rightarrow> heap \<times> AgentOrchestrator \<Rightarrow> heap \<times> AgentOrchestrator" where
  "updateDialoguePhase now resp ho =
     (let (h, orch) = ho;
          cs = currentState orch;
          currentPhase = ds_phase (states h cs);
          h = (if resp_type resp = question
                 then upd_state cs (\<lambda>s. s\<lparr>ds_phase := questioning\<rparr>) h
               else if resp_type resp = response
                 then upd_state cs (\<lambda>s. s\<lparr>ds_phase := responding\<rparr>) h
               else if resp_type resp = reflection
                 then upd_state cs (\<lambda>s. s\<lparr>ds_phase := reflecting\<rparr>) h
               else if length (resp_newInsights resp) > 0
                 then upd_state cs (\<lambda>s. s\<lparr>ds_phase := synthesizing\<rparr>) h
               else h)
      in if currentPhase \<noteq> ds_phase (states h cs)
         then (h, emitEvent \<lparr>ev_type = phase_change, ev_timestamp = now,
                             ev_data = PhaseChangeData currentPhase (ds_phase (states h cs)),
                             ev_source = ''orchestrator''\<rparr> orch)
         else (h, orch))"

text \<open>The test \<open>nextAgent === 'questioner' || nextAgent === 'explorer'\<close>.\<close>

fun valid_agent :: "role \<Rightarrow> agent option" where
  "valid_agent role_questioner = Some questioner"
| "valid_agent role_explorer = Some explorer"
| "valid_agent role_synthesis = None"

text \<open>\<open>updateStateFromResponse\<close>, in the order of the source: recent exchanges (cap
  10), insights, question thread, agent switch, phase, depth. Every \<open>new Date()\<close> of one
  turn reads the same clock value \<open>now\<close>.\<close>

definition updateStateFromResponse ::
  "int \<Rightarrow> DialogueExchange \<Rightarrow> AgentResponse \<Rightarrow> heap \<times> AgentOrchestrator
     \<Rightarrow> heap \<times> AgentOrchestrator" where
  "updateStateFromResponse now exchange resp ho =
     (let (h, orch) = ho;
          cs = currentState orch;
          ctx = ds_context (states h cs);
          h = upd_context ctx
                (\<lambda>c. c\<lparr>wm_recentExchanges := wm_recentExchanges c @ [exchange]\<rparr>) h;
          h = (if length (wm_recentExchanges (contexts h ctx)) > 10
               then upd_context ctx
                      (\<lambda>c. c\<lparr>wm_recentExchanges := slice_last 10 (wm_recentExchanges c)\<rparr>) h
               else h);
          (h, orch) =
            (if length (resp_newInsights resp) > 0
             then (upd_insights (ds_insights (states h cs))
                     (\<lambda>xs. xs @ resp_newInsights resp) h,
                   fold (\<lambda>i. emitEvent \<lparr>ev_type = insight_generated, ev_timestamp = now,
                                         ev_data = InsightData i,
                                         ev_source = agent_name (ex_agent exchange)\<rparr>)
                        (resp_newInsights resp) orch)
             else (h, orch));
          h = (if resp_type resp = question
               then upd_thread (ds_questionThread (states h cs))
                      (\<lambda>t. t\<lparr>qt_subQuestions := qt_subQuestions t @ [resp_content resp],
                              qt_depth := max (qt_depth t) (ds_depth (states h cs) + 1)\<rparr>) h
               else h);
          h = upd_state cs
                (\<lambda>s. s\<lparr>ds_currentAgent :=
                          (case valid_agent (resp_suggestedNextAgent resp) of
                             Some nextAgent \<Rightarrow> nextAgent
                           | None \<Rightarrow> (if ds_currentAgent s = questioner then explorer
                                      else questioner))\<rparr>) h;
          (h, orch) = updateDialoguePhase now resp (h, orch);
          h = (if resp_type resp = question \<and> length (resp_content resp) > 100
               then upd_state cs (\<lambda>s. s\<lparr>ds_depth := ds_depth s + 1\<rparr>) h
               else h)
      in (h, orch))"

subsection \<open>Public interface\<close>

text \<open>\<open>getCurrentState\<close> is \<open>return { ...this.currentState }\<close>: a new object with the
  property values of the current one, references included.\<close>

definition getCurrentState :: "heap \<Rightarrow> AgentOrchestrator \<Rightarrow> ref \<times> heap" where
  "getCurrentState h orch = new_state (states h (currentState orch)) h"

text \<open>A \<open>Partial<DialogueState>\<close>: every property may be absent.\<close>

record PartialDialogueState =
  p_id :: "string option"
  p_currentAgent :: "agent option"
  p_phase :: "phase option"
  p_context :: "ref option"
  p_depth :: "int option"
  p_insights :: "ref option"
  p_questionThread :: "ref option"

text \<open>\<open>restoreState\<close>: the spread of the current state, then of the partial one, then
  \<open>insights: this.currentState.insights || []\<close>. An array is truthy, so for a state of
  the declared type the last property is the orchestrator's own array. The object is
  new; the depth repair assigns to it afterwards.\<close>

definition restoreState ::
  "PartialDialogueState \<Rightarrow> heap \<times> AgentOrchestrator \<Rightarrow> heap \<times> AgentOrchestrator" where
  "restoreState state ho =
     (let (h, orch) = ho;
          cur = states h (currentState orch);
          (r, h) = new_state
            \<lparr>ds_id = (case p_id state of Some v \<Rightarrow> v | None \<Rightarrow> ds_id cur),
             ds_currentAgent = (case p_currentAgent state of Some v \<Rightarrow> v
                                | None \<Rightarrow> ds_currentAgent cur),
             ds_phase = (case p_phase state of Some v \<Rightarrow> v | None \<Rightarrow> ds_phase cur),
             ds_context = (case p_context state of Some v \<Rightarrow> v | None \<Rightarrow> ds_context cur),
             ds_depth = (case p_depth state of Some v \<Rightarrow> v | None \<Rightarrow> ds_depth cur),
             ds_insights = ds_insights cur,
             ds_questionThread = (case p_questionThread state of Some v \<Rightarrow> v
                                  | None \<Rightarrow> ds_questionThread cur)\<rparr> h;
          orch = orch\<lparr>currentState := r\<rparr>;
          h = (if ds_depth (states h (currentState orch)) > 10
               then upd_state (currentState orch) (\<lambda>s. s\<lparr>ds_depth := 0\<rparr>) h
               else h)
      in (h, orch))"

definition getRecentInsights :: "nat \<Rightarrow> heap \<Rightarrow> AgentOrchestrator \<Rightarrow> Insight list" where
  "getRecentInsights limit h orch =
     slice_last limit (insightArrays h (ds_insights (states h (currentState orch))))"

text \<open>What a reader of the orchestrator's state sees when following every reference.\<close>

record StateView =
  v_id :: string
  v_currentAgent :: agent
  v_phase :: phase
  v_context :: WorkingMemory
  v_depth :: int
  v_insights :: "Insight list"
  v_questionThread :: QuestionThread

definition view :: "heap \<Rightarrow> ref \<Rightarrow> StateView" where
  "view h r =
     (let s = states h r
      in \<lparr>v_id = ds_id s, v_currentAgent = ds_currentAgent s, v_phase = ds_phase s,
          v_context = contexts h (ds_context s), v_depth = ds_depth s,
          v_insights = insightArrays h (ds_insights s),
          v_questionThread = threads h (ds_questionThread s)\<rparr>)"

text \<open>\<open>this.currentState\<close>: the object the orchestrator's reference points to.\<close>

definition current :: "heap \<times> AgentOrchestrator \<Rightarrow> DialogueState" where
  "current ho = states (fst ho) (currentState (snd ho))"

text \<open>The other agent of the two.\<close>

fun opposite :: "agent \<Rightarrow> agent" where
  "opposite questioner = explorer"
| "opposite explorer = questioner"

text \<open>The phase a response leaves behind, given the phase before it: the response
  type decides, and new insights count only for a response of type \<open>insight\<close>.\<close>

definition phase_after :: "AgentResponse \<Rightarrow> phase \<Rightarrow> phase" where
  "phase_after resp old =
     (case resp_type resp of
        question \<Rightarrow> questioning
      | response \<Rightarrow> responding
      | reflection \<Rightarrow> reflecting
      | insight \<Rightarrow> (if resp_newInsights resp = [] then old else synthesizing))"

section \<open>The loop controller (greflect-v2.ts)\<close>

text \<open>The console lines that mark a decision of the controller.\<close>

datatype log_line =
    AlreadyRunning
  | StartingExploration
  | MaxDepthReached
  | StuckDetected nat
  | NewThread string
  | NewFocus string
  | StepError nat
  | TooManyErrors
  | ContinuingAfterError nat
  | SessionEnded
  | Stopping
  | SessionPaused

text \<open>The controller object together with the heap its orchestrator lives in.
  \<open>run_status\<close> is the \<open>status\<close> column of this run's row in table \<open>runs\<close>, which
  \<open>initialize\<close> sets to \<open>'running'\<close>.\<close>

record GreflectV2 =
  mem :: heap
  orchestrator :: AgentOrchestrator
  runId :: string
  isRunning :: bool
  maxDepth :: int
  console :: "log_line list"
  run_status :: string

definition console_log :: "log_line \<Rightarrow> GreflectV2 \<Rightarrow> GreflectV2" where
  "console_log l g = g\<lparr>console := console g @ [l]\<rparr>"

text \<open>\<open>startNewQuestionThread\<close>. The draw \<open>Math.floor(Math.random() * n)\<close> is an index
  below \<open>n\<close>; the input \<open>rnd\<close> supplies it (reduced modulo \<open>n\<close>). Indexing the empty
  array of concepts gives \<open>undefined\<close>, and \<open>||\<close> replaces that and the empty string by
  \<open>'consciousness'\<close>. All assignments go through \<open>currentState\<close>, the object that
  \<open>getCurrentState\<close> returned.\<close>

definition startNewQuestionThread :: "nat \<Rightarrow> GreflectV2 \<Rightarrow> GreflectV2" where
  "startNewQuestionThread rnd g =
     (let (currentState, h) = getCurrentState (mem g) (orchestrator g);
          unexploredAspects =
            qt_unexploredAspects (threads h (ds_questionThread (states h currentState)))
      in if length unexploredAspects > 0
         then
           (let newTopic = unexploredAspects ! (rnd mod length unexploredAspects);
                h = upd_context (ds_context (states h currentState))
                      (\<lambda>c. c\<lparr>wm_currentTopic := newTopic\<rparr>) h;
                h = upd_state currentState (\<lambda>s. s\<lparr>ds_depth := 0\<rparr>) h;
                (q, h) = new_thread
                  \<lparr>qt_rootQuestion =
                     ''What is the nature of '' @ newTopic @ '' in AI consciousness?'',
                   qt_subQuestions = [],
                   qt_exploredAspects = [],
                   qt_unexploredAspects = [''phenomenology'', ''intentionality'',
                                           ''binding problem'', ''hard problem''],
                   qt_depth = 0\<rparr> h;
                h = upd_state currentState (\<lambda>s. s\<lparr>ds_questionThread := q\<rparr>) h
            in console_log (NewThread newTopic) (g\<lparr>mem := h\<rparr>))
         else
           (let recentInsights = getRecentInsights 5 h (orchestrator g);
                insightConcepts = concat (map ins_relatedConcepts recentInsights);
                newTopic =
                  (if insightConcepts = [] then ''consciousness''
                   else (let t = insightConcepts ! (rnd mod length insightConcepts)
                         in if t = [] then ''consciousness'' else t));
                h = upd_context (ds_context (states h currentState))
                      (\<lambda>c. c\<lparr>wm_currentTopic := newTopic\<rparr>) h;
                h = upd_state currentState (\<lambda>s. s\<lparr>ds_depth := 0\<rparr>) h
            in console_log (NewFocus newTopic) (g\<lparr>mem := h\<rparr>)))"

text \<open>What the world outside the process contributes to one loop iteration: the two
  random draws, the clock, the outcome of the chat-completion turn (tools included) as
  the \<open>AgentResponse\<close> that \<open>processAgentResponse\<close> returns or the exception it lets
  through, whether the relational store accepted the writes that follow, and whether
  \<open>stop()\<close> was called from outside while the \<open>try\<close> block was suspended in an
  \<open>await\<close>.\<close>

datatype error = CapabilityError | StoreError | CheckViolation | UniqueViolation

record step_env =
  rnd_depth :: nat
  rnd_stuck :: nat
  step_now :: int
  agent_out :: "error + AgentResponse"
  episodic_ok :: bool
  persist_ok :: bool
  stop_called :: bool

text \<open>\<open>executeDialogueStep\<close>: the exchange is built from the response and the depth
  before the update; an exception leaves the state as far as it had been changed.\<close>

definition executeDialogueStep ::
  "step_env \<Rightarrow> heap \<times> AgentOrchestrator
     \<Rightarrow> (error + DialogueExchange) \<times> heap \<times> AgentOrchestrator" where
  "executeDialogueStep e ho =
     (let (h, orch) = ho;
          currentAgent = ds_currentAgent (states h (currentState orch))
      in case agent_out e of
           Inl err \<Rightarrow> (Inl err, h, orch)
         | Inr resp \<Rightarrow>
             (let exchange = \<lparr>ex_agent = currentAgent, ex_type = resp_type resp,
                              ex_content = resp_content resp, ex_timestamp = step_now e,
                              ex_depth = ds_depth (states h (currentState orch)),
                              ex_relatedMemories = resp_memoryReferences resp,
                              ex_response = Some resp\<rparr>;
                  (h, orch) = updateStateFromResponse (step_now e) exchange resp (h, orch)
              in if \<not> episodic_ok e then (Inl StoreError, h, orch)
                 else (Inr exchange,
                       h,
                       emitEvent \<lparr>ev_type = agent_response, ev_timestamp = step_now e,
                                  ev_data = ExchangeData exchange resp,
                                  ev_source = agent_name currentAgent\<rparr> orch)))"

text \<open>The pre-checks at the top of the \<open>try\<close> block, after \<open>stepCount++\<close>:
  \<open>currentState\<close> is the object \<open>getCurrentState\<close> returned at the top of the
  iteration, and both tests read its \<open>depth\<close>.\<close>

definition pre_checks :: "step_env \<Rightarrow> nat \<Rightarrow> GreflectV2 \<Rightarrow> GreflectV2" where
  "pre_checks e stepCount g =
     (let (currentState, h) = getCurrentState (mem g) (orchestrator g);
          g = g\<lparr>mem := h\<rparr>;
          g = (if ds_depth (states (mem g) currentState) \<ge> maxDepth g
               then startNewQuestionThread (rnd_depth e) (console_log MaxDepthReached g)
               else g);
          g = (if stepCount mod 50 = 0 \<and> ds_depth (states (mem g) currentState) = 0
                  \<and> stepCount > 50
               then startNewQuestionThread (rnd_stuck e) (console_log (StuckDetected stepCount) g)
               else g)
      in g)"

text \<open>The \<open>try\<close> block of the loop body, up to the reset of the error counter:
  the pre-checks, the dialogue step, the writes to the relational store. \<open>stepCount\<close> is the value
  after \<open>stepCount++\<close>. The result says whether an exception left the block.\<close>

definition try_block :: "step_env \<Rightarrow> nat \<Rightarrow> GreflectV2 \<Rightarrow> error option \<times> GreflectV2" where
  "try_block e stepCount g =
     (let g = pre_checks e stepCount g
      in case executeDialogueStep e (mem g, orchestrator g) of
           (Inl err, h, orch) \<Rightarrow> (Some err, g\<lparr>mem := h, orchestrator := orch\<rparr>)
         | (Inr exchange, h, orch) \<Rightarrow>
             (if \<not> persist_ok e then (Some StoreError, g\<lparr>mem := h, orchestrator := orch\<rparr>)
              else (None, g\<lparr>mem := h, orchestrator := orch\<rparr>)))"

text \<open>\<open>finalizeSession\<close> prints the pause summary when there is a run; it issues no
  statement against the relational store.\<close>

definition finalizeSession :: "GreflectV2 \<Rightarrow> GreflectV2" where
  "finalizeSession g = (if runId g \<noteq> [] then console_log SessionPaused g else g)"

text \<open>\<open>stop\<close>: the flag is cleared at once and the pause summary is printed; the loop
  sees the flag at the top of its next pass.\<close>

definition stop :: "GreflectV2 \<Rightarrow> GreflectV2" where
  "stop g = finalizeSession ((console_log Stopping g)\<lparr>isRunning := False\<rparr>)"

text \<open>The local variables of \<open>start\<close>.\<close>

record loop_state =
  ctl :: GreflectV2
  stepCount :: nat
  consecutiveErrors :: nat

definition maxConsecutiveErrors :: nat where
  "maxConsecutiveErrors = 3"

text \<open>One pass through the body of \<open>while (this.isRunning)\<close>; the first component is
  True when the pass ended in \<open>break\<close>. A \<open>stop()\<close> from outside takes effect when the
  \<open>try\<close> block is left.\<close>

definition loop_body :: "step_env \<Rightarrow> loop_state \<Rightarrow> bool \<times> loop_state" where
  "loop_body e s =
     (let s = s\<lparr>stepCount := stepCount s + 1\<rparr>;
          (thrown, g) = try_block e (stepCount s) (ctl s);
          g = (if stop_called e then stop g else g)
      in case thrown of
           None \<Rightarrow> (False, s\<lparr>ctl := g, consecutiveErrors := 0\<rparr>)
         | Some err \<Rightarrow>
             (let s = s\<lparr>ctl := console_log (StepError (stepCount s)) g,
                        consecutiveErrors := consecutiveErrors s + 1\<rparr>
              in if consecutiveErrors s \<ge> maxConsecutiveErrors
                 then (True, s\<lparr>ctl := (console_log TooManyErrors (ctl s))\<lparr>isRunning := False\<rparr>\<rparr>)
                 else (False,
                       s\<lparr>ctl := console_log (ContinuingAfterError (consecutiveErrors s))
                                   (ctl s)\<rparr>)))"

text \<open>The \<open>while\<close> loop over the iterations the environment supplies. The source loop
  has no bound: \<open>None\<close> says that the loop is still running when the supplied
  iterations are used up.\<close>

fun while_running :: "step_env list \<Rightarrow> loop_state \<Rightarrow> loop_state option" where
  "while_running es s =
     (if \<not> isRunning (ctl s) then Some s
      else case es of
             [] \<Rightarrow> None
           | e # es' \<Rightarrow> (case loop_body e s of
                           (True, s') \<Rightarrow> Some s'
                         | (False, s') \<Rightarrow> while_running es' s'))"

definition start :: "step_env list \<Rightarrow> GreflectV2 \<Rightarrow> GreflectV2 option" where
  "start es g =
     (if isRunning g then Some (console_log AlreadyRunning g)
      else case while_running es
                  \<lparr>ctl = console_log StartingExploration (g\<lparr>isRunning := True\<rparr>),
                   stepCount = 0, consecutiveErrors = 0\<rparr> of
             None \<Rightarrow> None
           | Some s \<Rightarrow> Some (finalizeSession (console_log SessionEnded (ctl s))))"

text \<open>An iteration errs when the turn throws or a write after it is refused.\<close>

definition step_errs :: "step_env \<Rightarrow> bool" where
  "step_errs e = (case agent_out e of Inl err \<Rightarrow> True
                  | Inr resp \<Rightarrow> \<not> (episodic_ok e \<and> persist_ok e))"

text \<open>The columns of the latest \<open>dialogue_states\<close> row that \<open>restoreOrCreateState\<close>
  hands to the orchestrator; the JSON columns are parsed into a new context object and a
  new question-thread object.\<close>

record saved_state =
  ss_id :: string
  ss_current_agent :: agent
  ss_phase :: phase
  ss_depth :: int
  ss_context :: WorkingMemory
  ss_question_thread :: QuestionThread

definition restoreOrCreateState ::
  "saved_state option \<Rightarrow> heap \<times> AgentOrchestrator \<Rightarrow> heap \<times> AgentOrchestrator" where
  "restoreOrCreateState row ho =
     (case row of
        None \<Rightarrow> ho
      | Some savedState \<Rightarrow>
          (let (h, orch) = ho;
               (c, h) = new_context ((ss_context savedState)\<lparr>wm_recentExchanges := []\<rparr>) h;
               (q, h) = new_thread (ss_question_thread savedState) h
           in restoreState
                \<lparr>p_id = Some (ss_id savedState),
                 p_currentAgent = Some (ss_current_agent savedState),
                 p_phase = Some (ss_phase savedState),
                 p_context = Some c,
                 p_depth = Some (ss_depth savedState),
                 p_insights = None,
                 p_questionThread = Some q\<rparr> (h, orch)))"

text \<open>\<open>initialize\<close> after the run has been resolved: a new orchestrator, then the
  saved state if the relational store has one. The fields are those of the constructor.\<close>

definition initialize :: "string \<Rightarrow> string \<Rightarrow> saved_state option \<Rightarrow> GreflectV2" where
  "initialize run uuid row =
     (let (h, orch) = restoreOrCreateState row (new_AgentOrchestrator uuid empty_heap)
      in \<lparr>mem = h, orchestrator = orch, runId = run, isRunning = False, maxDepth = 10,
          console = [], run_status = ''running''\<rparr>)"

subsection \<open>Sample inputs\<close>

definition sample_uuid :: string where
  "sample_uuid = ''3f2b8c1d-5a6e-4f70-9b21-0c4d7e8a9f10''"

definition fresh_orchestrator :: "heap \<times> AgentOrchestrator" where
  "fresh_orchestrator = new_AgentOrchestrator sample_uuid empty_heap"

definition only_depth :: "int \<Rightarrow> PartialDialogueState" where
  "only_depth d = \<lparr>p_id = None, p_currentAgent = None, p_phase = None, p_context = None,
     p_depth = Some d, p_insights = None, p_questionThread = None\<rparr>"

definition sample_insight :: Insight where
  "sample_insight = \<lparr>ins_id = ''7d1e0a52-33c4-4b8f-a6d9-1e2f3a4b5c6d'',
     ins_content = ''memory precedes experience'', ins_significance = medium,
     ins_relatedConcepts = [''experience''], ins_generatedBy = role_explorer,
     ins_timestamp = 0, ins_verified = False\<rparr>"

text \<open>A turn whose text holds an insight phrase and a question mark.\<close>

definition question_with_insight :: AgentResponse where
  "question_with_insight =
     \<lparr>resp_content = ''I realize that memory precedes experience. But why?'',
      resp_type = question, resp_confidence = 1/2, resp_suggestedNextAgent = role_explorer,
      resp_toolsUsed = [], resp_memoryReferences = [], resp_newInsights = [sample_insight],
      resp_toolDetails = None\<rparr>"

text \<open>A response that suggests the synthesis role, which is no dialogue agent.\<close>

definition synthesis_suggested :: AgentResponse where
  "synthesis_suggested =
     \<lparr>resp_content = ''Awareness may be a process.'',
      resp_type = response, resp_confidence = 1/2, resp_suggestedNextAgent = role_synthesis,
      resp_toolsUsed = [], resp_memoryReferences = [], resp_newInsights = [],
      resp_toolDetails = None\<rparr>"

definition exchange_of :: "agent \<Rightarrow> AgentResponse \<Rightarrow> DialogueExchange" where
  "exchange_of a resp = \<lparr>ex_agent = a, ex_type = resp_type resp,
     ex_content = resp_content resp, ex_timestamp = 0, ex_depth = 0,
     ex_relatedMemories = resp_memoryReferences resp, ex_response = Some resp\<rparr>"

text \<open>A caller's \<open>const s = orchestrator.getCurrentState(); s.context.currentTopic = t\<close>,
  the first assignment of \<open>startNewQuestionThread\<close>.\<close>

definition assign_topic_through_copy :: "string \<Rightarrow> heap \<times> AgentOrchestrator \<Rightarrow> heap" where
  "assign_topic_through_copy t ho =
     (let (s, h) = getCurrentState (fst ho) (snd ho)
      in upd_context (ds_context (states h s)) (\<lambda>c. c\<lparr>wm_currentTopic := t\<rparr>) h)"

text \<open>A caller's \<open>const s = orchestrator.getCurrentState(); s.depth = d\<close>.\<close>

definition assign_depth_of_copy :: "int \<Rightarrow> heap \<times> AgentOrchestrator \<Rightarrow> heap" where
  "assign_depth_of_copy d ho =
     (let (s, h) = getCurrentState (fst ho) (snd ho)
      in upd_state s (\<lambda>x. x\<lparr>ds_depth := d\<rparr>) h)"

text \<open>A run whose saved state stands at the maximum depth.\<close>

definition saved_at_depth :: "int \<Rightarrow> saved_state" where
  "saved_at_depth d =
     \<lparr>ss_id = sample_uuid, ss_current_agent = questioner, ss_phase = questioning,
      ss_depth = d,
      ss_context = \<lparr>wm_recentExchanges = [], wm_currentTopic = ''the observer paradox'',
                     wm_focusAreas = [], wm_assumptions = [], wm_contradictions = [],
                     wm_openQuestions = []\<rparr>,
      ss_question_thread = \<lparr>qt_rootQuestion = ''What watches the watcher?'',
                             qt_subQuestions = [], qt_exploredAspects = [],
                             qt_unexploredAspects = [''recursive self-awareness''],
                             qt_depth = d\<rparr>\<rparr>"

definition controller_at_depth :: "int \<Rightarrow> GreflectV2" where
  "controller_at_depth d = initialize ''run-1'' sample_uuid (Some (saved_at_depth d))"

definition failing_step :: step_env where
  "failing_step = \<lparr>rnd_depth = 0, rnd_stuck = 0, step_now = 0,
     agent_out = Inl CapabilityError, episodic_ok = True, persist_ok = True,
     stop_called = False\<rparr>"

definition good_step :: step_env where
  "good_step = \<lparr>rnd_depth = 0, rnd_stuck = 0, step_now = 0,
     agent_out = Inr synthesis_suggested, episodic_ok = True, persist_ok = True,
     stop_called = False\<rparr>"

text \<open>The loop after two consecutive errors.\<close>

definition third_error :: loop_state where
  "third_error = \<lparr>ctl = (controller_at_depth 3)\<lparr>isRunning := True\<rparr>,
                  stepCount = 2, consecutiveErrors = 2\<rparr>"

section \<open>The memory manager (class AdvancedMemoryManager, in apps/worker/src/index.ts)\<close>

subsection \<open>Semantic memory\<close>

record PhilosophicalConcept =
  pc_name :: string
  pc_definition :: string
  pc_relatedConcepts :: "string list"
  pc_sources :: "string list"
  pc_explorationLevel :: int

datatype concept_source = discovered | searched | inferred

text \<open>A row of table \<open>semantic_concepts\<close> (primary key \<open>id\<close>, \<open>name\<close> unique,
  \<open>CHECK (exploration_level BETWEEN 1 AND 10)\<close>).\<close>

record concept_row =
  sc_id :: string
  sc_name :: string
  sc_definition :: string
  sc_related_concepts :: "string list"
  sc_sources :: "string list"
  sc_exploration_level :: int
  sc_created_at :: int
  sc_updated_at :: int

text \<open>The statement \<open>INSERT INTO semantic_concepts ... ON CONFLICT (name) DO UPDATE SET
  definition = EXCLUDED.definition, related_concepts = EXCLUDED.related_concepts,
  exploration_level = GREATEST(semantic_concepts.exploration_level,
  EXCLUDED.exploration_level), updated_at = NOW()\<close>. The check constraint is tested on
  the proposed row before the conflict is looked for; a conflict on \<open>name\<close> updates the
  existing row, a clash of the primary key alone is a unique violation.\<close>

definition upsert_semantic_concept ::
  "concept_row \<Rightarrow> concept_row list \<Rightarrow> error + concept_row list" where
  "upsert_semantic_concept excluded table =
     (if sc_exploration_level excluded < 1 then Inl CheckViolation
      else if 10 < sc_exploration_level excluded then Inl CheckViolation
      else if sc_name excluded \<in> set (map sc_name table)
      then Inr (map (\<lambda>row. if sc_name row = sc_name excluded
                             then row\<lparr>sc_definition := sc_definition excluded,
                                      sc_related_concepts := sc_related_concepts excluded,
                                      sc_exploration_level :=
                                        max (sc_exploration_level row)
                                            (sc_exploration_level excluded),
                                      sc_updated_at := sc_updated_at excluded\<rparr>
                             else row) table)
      else if sc_id excluded \<in> set (map sc_id table) then Inl UniqueViolation
      else Inr (table @ [excluded]))"

text \<open>A point of the \<open>semantic\<close> vector collection with its payload.\<close>

record semantic_point =
  vp_id :: string
  vp_vector :: "rat list"
  vp_name :: string
  vp_definition :: string
  vp_explorationLevel :: int
  vp_source :: concept_source

record MemoryStore =
  semantic_concepts :: "concept_row list"
  semantic_points :: "semantic_point list"

text \<open>What the outside contributes to one \<open>storeSemanticMemory\<close> call: the identifier
  drawn by \<open>generateUUID\<close>, the clock, whether the relational store is reachable, the
  outcome of the embedding call and whether the vector store accepts the upsert.\<close>

record store_env =
  st_uuid :: string
  st_now :: int
  st_db_up :: bool
  st_embedding :: "error + rat list"
  st_upsert_ok :: bool

text \<open>\<open>storeSemanticMemory\<close>: the relational write is awaited outside any \<open>try\<close>, so
  its failure is the failure of the call; the vector write sits in a \<open>try\<close> whose
  \<open>catch\<close> only logs.\<close>

definition storeSemanticMemory ::
  "store_env \<Rightarrow> PhilosophicalConcept \<Rightarrow> concept_source \<Rightarrow> MemoryStore
     \<Rightarrow> error + MemoryStore" where
  "storeSemanticMemory env concept source st =
     (if \<not> st_db_up env then Inl StoreError
      else case upsert_semantic_concept
                  \<lparr>sc_id = st_uuid env, sc_name = pc_name concept,
                   sc_definition = pc_definition concept,
                   sc_related_concepts = pc_relatedConcepts concept,
                   sc_sources = pc_sources concept,
                   sc_exploration_level = pc_explorationLevel concept,
                   sc_created_at = st_now env, sc_updated_at = st_now env\<rparr>
                  (semantic_concepts st) of
             Inl err \<Rightarrow> Inl err
           | Inr table \<Rightarrow>
               (let st = st\<lparr>semantic_concepts := table\<rparr>
                in case st_embedding env of
                     Inl err \<Rightarrow> Inr st
                   | Inr embedding \<Rightarrow>
                       (if length embedding > 0 \<and> st_upsert_ok env
                        then Inr (st\<lparr>semantic_points :=
                                       filter (\<lambda>p. vp_id p \<noteq> st_uuid env) (semantic_points st)
                                       @ [\<lparr>vp_id = st_uuid env, vp_vector = embedding,
                                            vp_name = pc_name concept,
                                            vp_definition = pc_definition concept,
                                            vp_explorationLevel = pc_explorationLevel concept,
                                            vp_source = source\<rparr>]\<rparr>)
                        else Inr st)))"

text \<open>The exploration level the relational store holds for a concept name.\<close>

definition stored_level :: "MemoryStore \<Rightarrow> string \<Rightarrow> int option" where
  "stored_level st name =
     map_option sc_exploration_level (find (\<lambda>row. sc_name row = name) (semantic_concepts st))"

subsection \<open>Retrieval\<close>

text \<open>The payload of a search hit, by the properties the code reads; \<open>pl_props\<close> are
  its remaining string-valued properties. Hits carry a valid timestamp.\<close>

record payload =
  pl_content :: "string option"
  pl_timestamp :: int
  pl_tags :: "string list option"
  pl_props :: "(string \<times> string) list"

record search_hit =
  hit_id :: string
  hit_score :: "rat option"
  hit_payload :: "payload option"

datatype memory_content = Text string | WholePayload payload

record Memory =
  m_id :: string
  m_type :: string
  m_content :: memory_content
  m_timestamp :: int
  m_relevanceScore :: "rat option"
  m_tags :: "string list"
  m_metadata :: "(string \<times> string) list"

text \<open>A row of table \<open>memories\<close> as the fallback query selects it; \<open>mr_content\<close> is
  \<open>content::text\<close>.\<close>

record memory_row =
  mr_id :: string
  mr_type :: string
  mr_content :: string
  mr_timestamp :: int
  mr_tags :: "string list option"
  mr_metadata :: "(string \<times> string) list option"

text \<open>\<open>toLowerCase\<close> on the ASCII letters (codes 65 to 90).\<close>

definition lower_char :: "char \<Rightarrow> char" where
  "lower_char c =
     (if (65::nat) \<le> of_char c \<and> of_char c \<le> (90::nat)
      then char_of (of_char c + (32::nat)) else c)"

definition toLowerCase :: "string \<Rightarrow> string" where
  "toLowerCase s = map lower_char s"

text \<open>\<open>calculateContextualRelevance\<close>; \<open>clock\<close> is \<open>new Date().getTime()\<close>.\<close>

definition calculateContextualRelevance ::
  "int \<Rightarrow> Memory \<Rightarrow> WorkingMemory \<Rightarrow> string \<Rightarrow> rat" where
  "calculateContextualRelevance clock memory context query =
     (let score = (case m_relevanceScore memory of Some v \<Rightarrow> v | None \<Rightarrow> 0);
          score = (if list_ex (\<lambda>tag. str_includes (toLowerCase (wm_currentTopic context))
                                                  (toLowerCase tag)) (m_tags memory)
                   then score + 2/10 else score);
          score = (if list_ex (\<lambda>tag. list_ex (\<lambda>area. str_includes (toLowerCase area)
                                                                 (toLowerCase tag))
                                               (wm_focusAreas context)) (m_tags memory)
                   then score + 15/100 else score);
          score = (if m_type memory = ''episodic''
                   then (let hoursSince = of_int (clock - m_timestamp memory) / (1000 * 60 * 60)
                         in score + max 0 (1/10 - hoursSince * (1/100)))
                   else score);
          significance = map_of (m_metadata memory) ''significance'';
          score = (if significance = Some ''breakthrough'' then score + 3/10
                   else if significance = Some ''high'' then score + 2/10
                   else if significance = Some ''medium'' then score + 1/10
                   else score)
      in min score 1)"

text \<open>\<open>xs.slice(0, n)\<close>: a negative end counts from the end of the array.\<close>

definition slice_from0 :: "int \<Rightarrow> 'a list \<Rightarrow> 'a list" where
  "slice_from0 n xs = (if 0 \<le> n then take (nat n) xs else take (length xs - nat (- n)) xs)"

text \<open>The fallback query \<open>SELECT ... FROM memories WHERE type = ANY($1) AND content::text
  ILIKE $2 ORDER BY timestamp DESC LIMIT $3\<close>. The operator \<open>ILIKE\<close> belongs to the
  store and is an input (text first, pattern second); rows of equal timestamp keep their
  table order; a negative \<open>LIMIT\<close> is an error of the store.\<close>

definition sql_fallback ::
  "(string \<Rightarrow> string \<Rightarrow> bool) \<Rightarrow> bool \<Rightarrow> memory_row list \<Rightarrow> string list \<Rightarrow> string \<Rightarrow> int
     \<Rightarrow> error + memory_row list" where
  "sql_fallback ilike db_up table types pattern limit =
     (if \<not> db_up then Inl StoreError
      else if limit < 0 then Inl StoreError
      else Inr (take (nat limit)
                  (sort_key (\<lambda>row. - mr_timestamp row)
                     (filter (\<lambda>row. mr_type row \<in> set types \<and> ilike (mr_content row) pattern)
                        table))))"

text \<open>What the outside contributes to one retrieval: the outcome of the embedding
  call, the vector search per collection and result limit, the clock, the store's
  \<open>ILIKE\<close> and reachability, and table \<open>memories\<close>.\<close>

record retrieval_env =
  rv_embedding :: "error + rat list"
  rv_search :: "string \<Rightarrow> int \<Rightarrow> error + search_hit list"
  rv_clock :: int
  rv_ilike :: "string \<Rightarrow> string \<Rightarrow> bool"
  rv_db_up :: bool
  rv_memories :: "memory_row list"

text \<open>\<open>Math.ceil(limit / n)\<close> for a positive count \<open>n\<close>.\<close>

definition ceil_div :: "int \<Rightarrow> nat \<Rightarrow> int" where
  "ceil_div a n = - ((- a) div int n)"

definition hit_to_memory :: "string \<Rightarrow> search_hit \<Rightarrow> payload \<Rightarrow> Memory" where
  "hit_to_memory type result p =
     \<lparr>m_id = hit_id result, m_type = type,
      m_content = (case pl_content p of
                     None \<Rightarrow> WholePayload p
                   | Some c \<Rightarrow> (if c = [] then WholePayload p else Text c)),
      m_timestamp = pl_timestamp p,
      m_relevanceScore = hit_score result,
      m_tags = (case pl_tags p of Some tags \<Rightarrow> tags | None \<Rightarrow> []),
      m_metadata = pl_props p\<rparr>"

definition row_to_memory :: "memory_row \<Rightarrow> Memory" where
  "row_to_memory row =
     \<lparr>m_id = mr_id row, m_type = mr_type row, m_content = Text (mr_content row),
      m_timestamp = mr_timestamp row, m_relevanceScore = Some (5/10),
      m_tags = (case mr_tags row of Some tags \<Rightarrow> tags | None \<Rightarrow> []),
      m_metadata = (case mr_metadata row of Some md \<Rightarrow> md | None \<Rightarrow> [])\<rparr>"

text \<open>The body of the loop over the requested types: a type outside the three
  collections is skipped, a failing search is logged and contributes nothing, a hit
  without payload is dropped.\<close>

definition search_type :: "retrieval_env \<Rightarrow> int \<Rightarrow> string \<Rightarrow> Memory list" where
  "search_type env per_type type =
     (if type \<in> set [''episodic'', ''semantic'', ''procedural'']
      then (case rv_search env type per_type of
              Inl err \<Rightarrow> []
            | Inr results \<Rightarrow>
                concat (map (\<lambda>result. case hit_payload result of
                                         None \<Rightarrow> []
                                       | Some p \<Rightarrow> [hit_to_memory type result p]) results))
      else [])"

text \<open>The defaults of the signature, taken when an argument is absent.\<close>

definition default_types :: "string list option \<Rightarrow> string list" where
  "default_types arg =
     (case arg of None \<Rightarrow> [''episodic'', ''semantic'', ''procedural''] | Some ts \<Rightarrow> ts)"

definition default_limit :: "int option \<Rightarrow> int" where
  "default_limit arg = (case arg of None \<Rightarrow> 10 | Some l \<Rightarrow> l)"

text \<open>\<open>retrieveRelevantMemories\<close>. The embedding call is awaited outside any \<open>try\<close>;
  the fallback query sits in a \<open>try\<close> whose \<open>catch\<close> only logs.\<close>

definition retrieveRelevantMemories ::
  "retrieval_env \<Rightarrow> string \<Rightarrow> WorkingMemory \<Rightarrow> string list option \<Rightarrow> int option
     \<Rightarrow> error + Memory list" where
  "retrieveRelevantMemories env query context memoryTypes_arg limit_arg =
     (let memoryTypes = default_types memoryTypes_arg;
          limit = default_limit limit_arg
      in case rv_embedding env of
           Inl err \<Rightarrow> Inl err
         | Inr embedding \<Rightarrow>
             (if length embedding = 0 then Inr []
              else
                (let memories =
                       concat (map (search_type env (ceil_div limit (length memoryTypes)))
                                   memoryTypes);
                     sortedMemories =
                       slice_from0 limit
                         (sort_key (\<lambda>m. - calculateContextualRelevance (rv_clock env) m
                                                context query) memories)
                 in if length sortedMemories = 0
                    then (case sql_fallback (rv_ilike env) (rv_db_up env) (rv_memories env)
                                 memoryTypes (''%'' @ query @ ''%'') limit of
                            Inr rows \<Rightarrow> Inr (map row_to_memory rows)
                          | Inl err \<Rightarrow> Inr [])
                    else Inr sortedMemories)))"

subsection \<open>Sample inputs for the memory manager\<close>

definition qualia_concept :: "int \<Rightarrow> PhilosophicalConcept" where
  "qualia_concept l = \<lparr>pc_name = ''qualia'', pc_definition = ''what an experience is like'',
     pc_relatedConcepts = [''experience''], pc_sources = [], pc_explorationLevel = l\<rparr>"

definition store_call :: "string \<Rightarrow> store_env" where
  "store_call uuid = \<lparr>st_uuid = uuid, st_now = 0, st_db_up = True,
     st_embedding = Inl CapabilityError, st_upsert_ok = True\<rparr>"

definition empty_store :: MemoryStore where
  "empty_store = \<lparr>semantic_concepts = [], semantic_points = []\<rparr>"

text \<open>The relational store after \<open>qualia\<close> has been stored once at level 5.\<close>

definition qualia_stored :: MemoryStore where
  "qualia_stored =
     \<lparr>semantic_concepts =
        [\<lparr>sc_id = ''u1'', sc_name = ''qualia'',
          sc_definition = ''what an experience is like'',
          sc_related_concepts = [''experience''], sc_sources = [],
          sc_exploration_level = 5, sc_created_at = 0, sc_updated_at = 0\<rparr>],
      semantic_points = []\<rparr>"

text \<open>A stand-in for the store's \<open>ILIKE\<close> on patterns \<open>%q%\<close> whose \<open>q\<close> holds no wildcard.\<close>

definition plain_ilike :: "string \<Rightarrow> string \<Rightarrow> bool" where
  "plain_ilike text pattern = sublist (toLowerCase (butlast (tl pattern))) (toLowerCase text)"

definition memory_rows :: "memory_row list" where
  "memory_rows =
     [\<lparr>mr_id = ''m1'', mr_type = ''episodic'', mr_content = ''the mind'', mr_timestamp = 5,
       mr_tags = None, mr_metadata = None\<rparr>,
      \<lparr>mr_id = ''m2'', mr_type = ''episodic'', mr_content = ''a tree'', mr_timestamp = 7,
       mr_tags = None, mr_metadata = None\<rparr>,
      \<lparr>mr_id = ''m3'', mr_type = ''episodic'', mr_content = ''Mind'', mr_timestamp = 9,
       mr_tags = Some [''awareness''], mr_metadata = None\<rparr>]"

text \<open>A retrieval whose embedding succeeds and whose every vector search is empty.\<close>

definition empty_search_env :: retrieval_env where
  "empty_search_env = \<lparr>rv_embedding = Inr [1/10], rv_search = (\<lambda>type k. Inr []),
     rv_clock = 10, rv_ilike = plain_ilike, rv_db_up = True, rv_memories = memory_rows\<rparr>"

section \<open>Verified properties\<close>

subsection \<open>Reading the heap after an assignment\<close>

lemma states_upd_state [simp]: "states (upd_state r f h) = (states h)(r := f (states h r))"
  by (simp add: upd_state_def)

lemma frame_upd_state [simp]:
  "contexts (upd_state r f h) = contexts h"
  "threads (upd_state r f h) = threads h"
  "insightArrays (upd_state r f h) = insightArrays h"
  "lim (upd_state r f h) = lim h"
  by (simp_all add: upd_state_def)

lemma contexts_upd_context [simp]:
  "contexts (upd_context r f h) = (contexts h)(r := f (contexts h r))"
  by (simp add: upd_context_def)

lemma frame_upd_context [simp]:
  "states (upd_context r f h) = states h"
  "threads (upd_context r f h) = threads h"
  "insightArrays (upd_context r f h) = insightArrays h"
  "lim (upd_context r f h) = lim h"
  by (simp_all add: upd_context_def)

lemma threads_upd_thread [simp]:
  "threads (upd_thread r f h) = (threads h)(r := f (threads h r))"
  by (simp add: upd_thread_def)

lemma frame_upd_thread [simp]:
  "states (upd_thread r f h) = states h"
  "contexts (upd_thread r f h) = contexts h"
  "insightArrays (upd_thread r f h) = insightArrays h"
  "lim (upd_thread r f h) = lim h"
  by (simp_all add: upd_thread_def)

lemma insightArrays_upd_insights [simp]:
  "insightArrays (upd_insights r f h) = (insightArrays h)(r := f (insightArrays h r))"
  by (simp add: upd_insights_def)

lemma frame_upd_insights [simp]:
  "states (upd_insights r f h) = states h"
  "contexts (upd_insights r f h) = contexts h"
  "threads (upd_insights r f h) = threads h"
  "lim (upd_insights r f h) = lim h"
  by (simp_all add: upd_insights_def)

lemma currentState_emitEvent [simp]: "currentState (emitEvent ev orch) = currentState orch"
  by (simp add: emitEvent_def Let_def)

lemma currentState_fold_emitEvent [simp]:
  "currentState (fold (\<lambda>i. emitEvent (f i)) xs orch) = currentState orch"
  by (induction xs arbitrary: orch) simp_all

lemmas alloc_defs = new_state_def new_context_def new_thread_def new_insightArray_def

lemmas fresh_defs = fresh_orchestrator_def new_AgentOrchestrator_def createInitialState_def
  empty_heap_def sample_uuid_def

subsection \<open>The phase update, stage by stage\<close>

lemma updateDialoguePhase_heap:
  "fst (updateDialoguePhase now resp (h, orch)) =
     upd_state (currentState orch) (\<lambda>s. s\<lparr>ds_phase := phase_after resp (ds_phase s)\<rparr>) h"
  by (cases "resp_type resp")
     (simp_all add: updateDialoguePhase_def phase_after_def upd_state_def Let_def)

lemma updateDialoguePhase_currentState [simp]:
  "currentState (snd (updateDialoguePhase now resp (h, orch))) = currentState orch"
  by (simp add: updateDialoguePhase_def Let_def)

subsection \<open>The confidence heuristic\<close>

lemma calculateConfidence_unfolded:
  "calculateConfidence t =
     max 0 (min 1 (1/2 + (if 100 < length t then 2/10 else 0)
                  + (if precision_language t then 1/10 else 0)
                  - (if uncertainty_language t then 2/10 else 0)))"
  unfolding calculateConfidence_def Let_def str_includes_def precision_language_def
    uncertainty_language_def
  by (cases "100 < length t"; cases "sublist ''specifically'' t \<or> sublist ''precisely'' t";
      cases "sublist ''uncertain'' t \<or> sublist ''unclear'' t"; simp only: if_True if_False; simp)

lemma max_min_clamp01: "max 0 (min 1 x) = clamp01 x"
  by (simp add: clamp01_def max_def min_def)

lemma calculateConfidence_empty: "calculateConfidence [] = 1/2"
  by (simp add: calculateConfidence_def str_includes_def)

text \<open>
  C8. For every text, the empty one included, \<open>calculateConfidence\<close> returns the clamp
  to [0,1] of 0.5, plus 0.2 when the text is longer than 100 characters, plus 0.1 when it
  contains precision language, minus 0.2 when it contains uncertainty language; the
  result lies between 0 and 1, and the empty text scores 0.5. Scores are exact rationals
  here; the source adds the same constants in double precision.
\<close>

theorem calculateConfidence_formula_and_bounds:
  "calculateConfidence t = confidence_spec t
   \<and> 0 \<le> calculateConfidence t \<and> calculateConfidence t \<le> 1
   \<and> calculateConfidence [] = 1/2"
proof -
  have eq: "calculateConfidence t = confidence_spec t"
    by (simp only: calculateConfidence_unfolded max_min_clamp01 confidence_spec_def)
  have lo: "0 \<le> clamp01 x" and hi: "clamp01 x \<le> 1" for x
    by (simp_all add: clamp01_def)
  show ?thesis
    using eq lo hi calculateConfidence_empty by (simp add: confidence_spec_def)
qed

subsection \<open>Restoring a state\<close>

text \<open>
  C6. For every partial state that supplies a depth \<open>d\<close>, the depth of the orchestrator's
  state after \<open>restoreState\<close> is 0 when \<open>d > 10\<close> and \<open>d\<close> itself when \<open>d \<le> 10\<close>; so 37
  restores to 0 and 5 restores to 5.
\<close>

theorem restoreState_depth_repair:
  assumes "p_depth p = Some d"
  shows "ds_depth (current (restoreState p ho)) = (if 10 < d then 0 else d)"
  using assms
  by (cases ho) (simp add: restoreState_def current_def new_state_def Let_def)

theorem restoreState_depth_repair_witness:
  "p_depth (only_depth 37) = Some 37
   \<and> ds_depth (current (restoreState (only_depth 37) fresh_orchestrator)) = 0
   \<and> p_depth (only_depth 5) = Some 5
   \<and> ds_depth (current (restoreState (only_depth 5) fresh_orchestrator)) = 5"
proof -
  have a: "p_depth (only_depth 37) = Some 37" and b: "p_depth (only_depth 5) = Some 5"
    by (simp_all add: only_depth_def)
  show ?thesis
    using a b restoreState_depth_repair [OF a, of fresh_orchestrator]
      restoreState_depth_repair [OF b, of fresh_orchestrator]
    by simp
qed

text \<open>
  C10. For every partial state, whether or not it carries an \<open>insights\<close> array, the
  state after \<open>restoreState\<close> refers to the insights array the orchestrator held before
  the call, and the contents of every insights array are as before: a supplied array
  is never adopted.
\<close>

theorem restoreState_keeps_insights:
  "ds_insights (current (restoreState p ho)) = ds_insights (current ho)
   \<and> insightArrays (fst (restoreState p ho)) = insightArrays (fst ho)
   \<and> v_insights (view (fst (restoreState p ho)) (currentState (snd (restoreState p ho))))
       = v_insights (view (fst ho) (currentState (snd ho)))"
  by (cases ho) (simp add: restoreState_def current_def new_state_def view_def Let_def)

subsection \<open>Agent alternation\<close>

lemma updateStateFromResponse_agent:
  assumes "valid_agent (resp_suggestedNextAgent resp) = None"
  shows "ds_currentAgent (current (updateStateFromResponse now exchange resp (h, orch)))
           = opposite (ds_currentAgent (current (h, orch)))"
  using assms
  by (cases "ds_currentAgent (states h (currentState orch))")
     (simp_all add: updateStateFromResponse_def current_def Let_def case_prod_beta
        updateDialoguePhase_heap)

lemma executeDialogueStep_state:
  assumes "agent_out e = Inr resp"
  shows "current (snd (executeDialogueStep e (h, orch)))
           = current (updateStateFromResponse (step_now e)
               \<lparr>ex_agent = ds_currentAgent (states h (currentState orch)),
                ex_type = resp_type resp, ex_content = resp_content resp,
                ex_timestamp = step_now e,
                ex_depth = ds_depth (states h (currentState orch)),
                ex_relatedMemories = resp_memoryReferences resp,
                ex_response = Some resp\<rparr> resp (h, orch))"
  using assms
  by (simp add: executeDialogueStep_def current_def Let_def case_prod_beta)

text \<open>
  C9. For every prior state and every response whose suggested next agent is neither
  the questioner nor the explorer, the current agent after \<open>updateStateFromResponse\<close> is
  the opposite of the current agent before it, and so it is after the whole
  \<open>executeDialogueStep\<close> that received this response.
\<close>

theorem updateStateFromResponse_alternates:
  assumes "valid_agent (resp_suggestedNextAgent resp) = None"
  shows "ds_currentAgent (current (updateStateFromResponse now exchange resp ho))
           = opposite (ds_currentAgent (current ho))
         \<and> (agent_out e = Inr resp \<longrightarrow>
              ds_currentAgent (current (snd (executeDialogueStep e ho)))
                = opposite (ds_currentAgent (current ho)))"
proof (cases ho)
  case (Pair h orch)
  show ?thesis
    unfolding Pair
    using updateStateFromResponse_agent [OF assms] executeDialogueStep_state [of e resp h orch]
    by simp
qed

theorem updateStateFromResponse_alternates_witness:
  "valid_agent (resp_suggestedNextAgent synthesis_suggested) = None
   \<and> ds_currentAgent (current fresh_orchestrator) = questioner
   \<and> ds_currentAgent (current (updateStateFromResponse 0
         (exchange_of questioner synthesis_suggested) synthesis_suggested fresh_orchestrator))
       = explorer
   \<and> agent_out good_step = Inr synthesis_suggested
   \<and> ds_currentAgent (current (snd (executeDialogueStep good_step fresh_orchestrator)))
       = explorer"
proof -
  have a: "valid_agent (resp_suggestedNextAgent synthesis_suggested) = None"
    by (simp add: synthesis_suggested_def)
  have b: "ds_currentAgent (current fresh_orchestrator) = questioner"
    by (simp add: fresh_defs alloc_defs current_def Let_def)
  have c: "agent_out good_step = Inr synthesis_suggested"
    by (simp add: good_step_def)
  show ?thesis
    using a b c updateStateFromResponse_alternates [OF a, of 0
        "exchange_of questioner synthesis_suggested" fresh_orchestrator good_step]
    by simp
qed


subsection \<open>Copies of the state\<close>

lemmas controller_defs = controller_at_depth_def initialize_def restoreOrCreateState_def
  restoreState_def saved_at_depth_def new_AgentOrchestrator_def createInitialState_def
  empty_heap_def sample_uuid_def

text \<open>
  C1. At the pre-check of an iteration whose state has depth 10 (the maximum), the
  controller announces the new thread and runs \<open>startNewQuestionThread\<close> before the
  step; afterwards the orchestrator's state still has depth 10, because the reset
  assigned to the copy that \<open>getCurrentState\<close> returned.
\<close>

theorem precheck_reset_leaves_orchestrator_depth:
  "maxDepth (controller_at_depth 10) = 10
   \<and> ds_depth (current (mem (controller_at_depth 10), orchestrator (controller_at_depth 10))) = 10
   \<and> console (pre_checks good_step 1 (controller_at_depth 10))
       = [MaxDepthReached, NewThread ''recursive self-awareness'']
   \<and> ds_depth (current (mem (pre_checks good_step 1 (controller_at_depth 10)),
                         orchestrator (pre_checks good_step 1 (controller_at_depth 10)))) = 10"
  by (simp add: controller_defs alloc_defs current_def pre_checks_def getCurrentState_def
      startNewQuestionThread_def console_log_def good_step_def Let_def)

text \<open>The same holds from every state whose object is allocated: the reset never
  reaches the depth the orchestrator reads, whichever branch it takes.\<close>

lemma startNewQuestionThread_keeps_depth:
  assumes "currentState (orchestrator g) < lim (mem g)"
  shows "ds_depth (current (mem (startNewQuestionThread rnd g),
                            orchestrator (startNewQuestionThread rnd g)))
           = ds_depth (current (mem g, orchestrator g))"
  using assms
  by (simp add: startNewQuestionThread_def getCurrentState_def new_state_def new_thread_def
      console_log_def current_def Let_def)


text \<open>
  C2, as the code has it. \<open>getCurrentState\<close> returns a new object that holds the
  property values of the orchestrator's state, references included: assigning to a
  property of the returned object leaves the orchestrator's state as it was, at every
  level. (The context, question thread and insights it refers to are the orchestrator's
  own objects.)
\<close>

theorem getCurrentState_top_level_copy:
  assumes "currentState orch < lim h"
  shows "fst (getCurrentState h orch) \<noteq> currentState orch
     \<and> states (snd (getCurrentState h orch)) (fst (getCurrentState h orch))
         = states h (currentState orch)
     \<and> view (snd (getCurrentState h orch)) (currentState orch) = view h (currentState orch)
     \<and> view (upd_state (fst (getCurrentState h orch)) f (snd (getCurrentState h orch)))
             (currentState orch) = view h (currentState orch)"
  using assms by (simp add: getCurrentState_def new_state_def view_def Let_def)

theorem getCurrentState_top_level_copy_witness:
  "currentState (snd fresh_orchestrator) < lim (fst fresh_orchestrator)
   \<and> view (assign_depth_of_copy 7 fresh_orchestrator) (currentState (snd fresh_orchestrator))
       = view (fst fresh_orchestrator) (currentState (snd fresh_orchestrator))"
proof -
  have a: "currentState (snd fresh_orchestrator) < lim (fst fresh_orchestrator)"
    by (simp add: fresh_defs alloc_defs Let_def)
  show ?thesis
    using a getCurrentState_top_level_copy [OF a, of "\<lambda>x. x\<lparr>ds_depth := 7\<rparr>"]
    by (simp add: assign_depth_of_copy_def case_prod_beta)
qed

text \<open>
  C2, as stated, fails: after \<open>s = getCurrentState()\<close> on a new orchestrator, the
  assignment \<open>s.context.currentTopic = 'qualia'\<close> changes the topic the orchestrator
  itself reads.
\<close>

theorem getCurrentState_shares_context:
  "wm_currentTopic (v_context (view (fst fresh_orchestrator)
       (currentState (snd fresh_orchestrator)))) = ''the strange persistence of awareness''
   \<and> wm_currentTopic (v_context (view (assign_topic_through_copy ''qualia'' fresh_orchestrator)
       (currentState (snd fresh_orchestrator)))) = ''qualia''"
  by (simp add: fresh_defs alloc_defs view_def assign_topic_through_copy_def
      getCurrentState_def Let_def)

subsection \<open>The dialogue phase\<close>

lemma updateDialoguePhase_events:
  "snd (updateDialoguePhase now resp (h, orch)) =
     (if phase_after resp (ds_phase (states h (currentState orch)))
           = ds_phase (states h (currentState orch))
      then orch
      else emitEvent \<lparr>ev_type = phase_change, ev_timestamp = now,
             ev_data = PhaseChangeData (ds_phase (states h (currentState orch)))
                         (phase_after resp (ds_phase (states h (currentState orch)))),
             ev_source = ''orchestrator''\<rparr> orch)"
  by (cases "resp_type resp")
     (auto simp add: updateDialoguePhase_def phase_after_def Let_def)

lemma updateStateFromResponse_phase:
  "ds_phase (current (updateStateFromResponse now exchange resp (h, orch)))
     = phase_after resp (ds_phase (current (h, orch)))"
  by (simp add: updateStateFromResponse_def current_def Let_def case_prod_beta
        updateDialoguePhase_heap)

text \<open>
  C5, as the code has it. After \<open>updateDialoguePhase\<close>, and after the whole state
  update of a step, the phase is questioning, responding or reflecting for a response of
  type question, response or reflection; for a response of type insight it is
  synthesizing when the response carries a new insight and the previous phase
  otherwise. One \<open>phase_change\<close> event from the previous to the new phase is emitted when
  the two differ, and the event history is untouched when they are equal.
\<close>

theorem updateDialoguePhase_result:
  "ds_phase (current (updateDialoguePhase now resp ho)) = phase_after resp (ds_phase (current ho))
   \<and> snd (updateDialoguePhase now resp ho) =
       (if phase_after resp (ds_phase (current ho)) = ds_phase (current ho) then snd ho
        else emitEvent \<lparr>ev_type = phase_change, ev_timestamp = now,
               ev_data = PhaseChangeData (ds_phase (current ho))
                           (phase_after resp (ds_phase (current ho))),
               ev_source = ''orchestrator''\<rparr> (snd ho))
   \<and> ds_phase (current (updateStateFromResponse now exchange resp ho))
       = phase_after resp (ds_phase (current ho))"
proof (cases ho)
  case (Pair h orch)
  have a: "ds_phase (current (updateDialoguePhase now resp (h, orch)))
             = phase_after resp (ds_phase (current (h, orch)))"
    by (simp add: current_def updateDialoguePhase_heap)
  show ?thesis
    unfolding Pair
    using a updateStateFromResponse_phase [of now exchange resp h orch]
      updateDialoguePhase_events [of now resp h orch]
    by (simp add: current_def)
qed

text \<open>
  C5, as stated, fails: a response of type question that carries a new insight leaves
  the phase at questioning, not synthesizing.
\<close>

theorem insight_in_question_keeps_questioning:
  "resp_newInsights question_with_insight = [sample_insight]
   \<and> resp_type question_with_insight = question
   \<and> ds_phase (current (updateStateFromResponse 0
        (exchange_of questioner question_with_insight) question_with_insight fresh_orchestrator))
       = questioning"
proof -
  have "ds_phase (current (updateStateFromResponse 0
          (exchange_of questioner question_with_insight) question_with_insight
          (fst fresh_orchestrator, snd fresh_orchestrator)))
        = phase_after question_with_insight
            (ds_phase (current (fst fresh_orchestrator, snd fresh_orchestrator)))"
    by (rule updateStateFromResponse_phase)
  then show ?thesis
    by (simp add: phase_after_def question_with_insight_def)
qed


subsection \<open>The error circuit breaker\<close>

lemma console_log_frame [simp]:
  "runId (console_log l g) = runId g"
  "isRunning (console_log l g) = isRunning g"
  "maxDepth (console_log l g) = maxDepth g"
  "run_status (console_log l g) = run_status g"
  "orchestrator (console_log l g) = orchestrator g"
  "mem (console_log l g) = mem g"
  "console (console_log l g) = console g @ [l]"
  by (simp_all add: console_log_def)

lemma startNewQuestionThread_frame [simp]:
  "runId (startNewQuestionThread rnd g) = runId g"
  "isRunning (startNewQuestionThread rnd g) = isRunning g"
  "maxDepth (startNewQuestionThread rnd g) = maxDepth g"
  "run_status (startNewQuestionThread rnd g) = run_status g"
  "orchestrator (startNewQuestionThread rnd g) = orchestrator g"
  by (simp_all add: startNewQuestionThread_def Let_def case_prod_beta)

lemma pre_checks_frame [simp]:
  "runId (pre_checks e n g) = runId g"
  "isRunning (pre_checks e n g) = isRunning g"
  "maxDepth (pre_checks e n g) = maxDepth g"
  "run_status (pre_checks e n g) = run_status g"
  "orchestrator (pre_checks e n g) = orchestrator g"
  by (simp_all add: pre_checks_def Let_def case_prod_beta)

lemma executeDialogueStep_throws:
  "isl (fst (executeDialogueStep e ho)) =
     (case agent_out e of Inl err \<Rightarrow> True | Inr resp \<Rightarrow> \<not> episodic_ok e)"
  by (cases ho; cases "agent_out e")
     (simp_all add: executeDialogueStep_def Let_def case_prod_beta)

lemma try_block_throws: "(fst (try_block e n g) \<noteq> None) = step_errs e"
proof -
  obtain r h orch
    where x: "executeDialogueStep e (mem (pre_checks e n g), orchestrator g) = (r, h, orch)"
    by (metis prod_cases3)
  have "isl r = (case agent_out e of Inl err \<Rightarrow> True | Inr resp \<Rightarrow> \<not> episodic_ok e)"
    using executeDialogueStep_throws
      [of e "(mem (pre_checks e n g), orchestrator g)"] x
    by simp
  then show ?thesis
    by (cases r; cases "agent_out e") (simp_all add: try_block_def Let_def x step_errs_def)
qed

lemma try_block_frame [simp]:
  "runId (snd (try_block e n g)) = runId g"
  "isRunning (snd (try_block e n g)) = isRunning g"
  "maxDepth (snd (try_block e n g)) = maxDepth g"
  "run_status (snd (try_block e n g)) = run_status g"
  by (simp_all add: try_block_def Let_def split: prod.split sum.split)

lemma finalizeSession_frame [simp]:
  "isRunning (finalizeSession g) = isRunning g"
  "run_status (finalizeSession g) = run_status g"
  "runId (finalizeSession g) = runId g"
  by (simp_all add: finalizeSession_def)

lemma finalizeSession_logs:
  "runId g \<noteq> [] \<Longrightarrow> console (finalizeSession g) = console g @ [SessionPaused]"
  by (simp add: finalizeSession_def)

lemma stop_frame [simp]:
  "isRunning (stop g) = False"
  "run_status (stop g) = run_status g"
  "runId (stop g) = runId g"
  by (simp_all add: stop_def)

lemma loop_body_unfolded:
  "loop_body e s =
     (let g = (if stop_called e then stop (snd (try_block e (stepCount s + 1) (ctl s)))
               else snd (try_block e (stepCount s + 1) (ctl s)))
      in if \<not> step_errs e
         then (False, s\<lparr>stepCount := stepCount s + 1, ctl := g, consecutiveErrors := 0\<rparr>)
         else if 3 \<le> consecutiveErrors s + 1
         then (True, s\<lparr>stepCount := stepCount s + 1,
                        ctl := (console_log TooManyErrors
                                  (console_log (StepError (stepCount s + 1)) g))
                               \<lparr>isRunning := False\<rparr>,
                        consecutiveErrors := consecutiveErrors s + 1\<rparr>)
         else (False, s\<lparr>stepCount := stepCount s + 1,
                         ctl := console_log (ContinuingAfterError (consecutiveErrors s + 1))
                                  (console_log (StepError (stepCount s + 1)) g),
                         consecutiveErrors := consecutiveErrors s + 1\<rparr>))"
  using try_block_throws [of e "stepCount s + 1" "ctl s"]
  by (cases "try_block e (stepCount s + 1) (ctl s)";
      cases "fst (try_block e (stepCount s + 1) (ctl s))")
     (simp_all add: loop_body_def Let_def maxConsecutiveErrors_def)

lemma loop_body_counter:
  "consecutiveErrors (snd (loop_body e s)) = (if step_errs e then consecutiveErrors s + 1 else 0)"
  by (simp add: loop_body_unfolded Let_def)

lemma loop_body_break:
  "fst (loop_body e s) = (step_errs e \<and> 3 \<le> consecutiveErrors s + 1)"
  by (simp add: loop_body_unfolded Let_def)

lemma loop_body_running:
  "isRunning (ctl (snd (loop_body e s))) =
     (isRunning (ctl s) \<and> \<not> stop_called e \<and> \<not> (step_errs e \<and> 3 \<le> consecutiveErrors s + 1))"
  by (simp add: loop_body_unfolded Let_def)

lemma loop_body_frame [simp]:
  "runId (ctl (snd (loop_body e s))) = runId (ctl s)"
  "run_status (ctl (snd (loop_body e s))) = run_status (ctl s)"
  "stepCount (snd (loop_body e s)) = stepCount s + 1"
  by (simp_all add: loop_body_unfolded Let_def)

lemma while_running_Nil:
  "while_running [] s = (if isRunning (ctl s) then None else Some s)"
  by simp

lemma while_running_Cons:
  "while_running (e # es) s =
     (if \<not> isRunning (ctl s) then Some s
      else if fst (loop_body e s) then Some (snd (loop_body e s))
      else while_running es (snd (loop_body e s)))"
  by (cases "loop_body e s") simp

declare while_running.simps [simp del]

lemma while_running_stopped:
  "while_running es s = Some s' \<Longrightarrow> \<not> isRunning (ctl s')"
proof (induction es arbitrary: s)
  case Nil
  then show ?case by (simp add: while_running_Nil split: if_splits)
next
  case (Cons e es)
  show ?case
  proof (cases "isRunning (ctl s)")
    case False
    with Cons.prems show ?thesis by (simp add: while_running_Cons)
  next
    case True
    show ?thesis
    proof (cases "fst (loop_body e s)")
      case brk: True
      with True Cons.prems have "s' = snd (loop_body e s)"
        by (simp add: while_running_Cons)
      with brk show ?thesis by (simp add: loop_body_running loop_body_break)
    next
      case False
      with True Cons.prems have "while_running es (snd (loop_body e s)) = Some s'"
        by (simp add: while_running_Cons)
      then show ?thesis by (rule Cons.IH)
    qed
  qed
qed

lemma while_running_frame:
  "while_running es s = Some s' \<Longrightarrow>
     runId (ctl s') = runId (ctl s) \<and> run_status (ctl s') = run_status (ctl s)"
proof (induction es arbitrary: s)
  case Nil
  then show ?case by (simp add: while_running_Nil split: if_splits)
next
  case (Cons e es)
  show ?case
  proof (cases "isRunning (ctl s) \<and> \<not> fst (loop_body e s)")
    case True
    with Cons.prems have "while_running es (snd (loop_body e s)) = Some s'"
      by (simp add: while_running_Cons)
    from Cons.IH [OF this] show ?thesis by simp
  next
    case False
    with Cons.prems show ?thesis
      by (auto simp add: while_running_Cons split: if_splits)
  qed
qed

lemma start_returns:
  assumes "\<not> isRunning g" and "start es g = Some g'"
  shows "\<not> isRunning g' \<and> run_status g' = run_status g
         \<and> (if runId g = [] then last (console g') = SessionEnded
             else last (console g') = SessionPaused)"
proof -
  let ?s0 = "\<lparr>ctl = console_log StartingExploration (g\<lparr>isRunning := True\<rparr>),
              stepCount = 0, consecutiveErrors = 0\<rparr>"
  from assms obtain s where w: "while_running es ?s0 = Some s"
    and g': "g' = finalizeSession (console_log SessionEnded (ctl s))"
    by (auto simp add: start_def split: option.splits)
  from while_running_stopped [OF w] while_running_frame [OF w] g'
  show ?thesis
    by (simp add: finalizeSession_def)
qed

text \<open>
  C4. A pass through the loop body errs exactly when an exception leaves its \<open>try\<close>
  block. In every pass an erring iteration adds one to the consecutive-error counter and
  a successful one sets it to 0. The running flag stays as
  it was unless \<open>stop()\<close> is called from outside or the iteration errs and brings the
  counter to 3: then it becomes false, the loop ends with this pass and the iterations
  still to come are never started. Whenever
  \<open>start\<close> returns for a controller that was not already running, the flag is false, the
  status of the run in the relational store is what it was (so never \<open>completed\<close>), and for a run
  with an identifier the last console line is the pause notice.
\<close>

theorem consecutive_error_policy:
  "step_errs e = (fst (try_block e (stepCount s + 1) (ctl s)) \<noteq> None)
   \<and> consecutiveErrors (snd (loop_body e s)) = (if step_errs e then consecutiveErrors s + 1 else 0)
   \<and> isRunning (ctl (snd (loop_body e s)))
       = (isRunning (ctl s) \<and> \<not> stop_called e
          \<and> \<not> (step_errs e \<and> 3 \<le> consecutiveErrors s + 1))
   \<and> (isRunning (ctl s) \<and> step_errs e \<and> 3 \<le> consecutiveErrors s + 1
        \<longrightarrow> while_running (e # rest) s = Some (snd (loop_body e s)))
   \<and> (\<not> isRunning g \<and> runId g \<noteq> [] \<and> start es g = Some g'
        \<longrightarrow> \<not> isRunning g' \<and> run_status g' = run_status g
            \<and> last (console g') = SessionPaused)"
proof -
  have stop: "while_running (e # rest) s = Some (snd (loop_body e s))"
    if "isRunning (ctl s)" "step_errs e" "3 \<le> consecutiveErrors s + 1"
    using that by (simp add: while_running_Cons loop_body_break)
  have fin: "\<not> isRunning g' \<and> run_status g' = run_status g \<and> last (console g') = SessionPaused"
    if "\<not> isRunning g" "runId g \<noteq> []" "start es g = Some g'"
    using start_returns [OF that(1) that(3)] that(2) by simp
  show ?thesis
    using try_block_throws [of e "stepCount s + 1" "ctl s"]
      loop_body_counter [of e s] loop_body_running [of e s] stop fin
    by blast
qed

lemma step_errs_failing_step: "step_errs failing_step"
  by (simp add: step_errs_def failing_step_def)

lemma sample_steps_not_stopped: "\<not> stop_called failing_step" "\<not> stop_called good_step"
  by (simp_all add: failing_step_def good_step_def)

lemma controller_at_depth_fields:
  "isRunning (controller_at_depth d) = False"
  "runId (controller_at_depth d) = ''run-1''"
  "run_status (controller_at_depth d) = ''running''"
  by (simp_all add: controller_at_depth_def initialize_def case_prod_beta)

lemma three_failures_return:
  "start [failing_step, failing_step, failing_step, good_step] (controller_at_depth 3) \<noteq> None"
  by (simp add: start_def controller_at_depth_fields while_running_Cons loop_body_break
      loop_body_running loop_body_counter step_errs_failing_step sample_steps_not_stopped)


theorem consecutive_error_policy_witness:
  "isRunning (ctl third_error) \<and> step_errs failing_step
   \<and> 3 \<le> consecutiveErrors third_error + 1
   \<and> consecutiveErrors (snd (loop_body failing_step third_error)) = 3
   \<and> \<not> isRunning (ctl (snd (loop_body failing_step third_error)))
   \<and> while_running [failing_step, good_step] third_error
       = Some (snd (loop_body failing_step third_error))
   \<and> consecutiveErrors (snd (loop_body good_step third_error)) = 0
   \<and> \<not> isRunning (controller_at_depth 3) \<and> runId (controller_at_depth 3) \<noteq> []
   \<and> start [failing_step, failing_step, failing_step, good_step] (controller_at_depth 3) \<noteq> None
   \<and> \<not> isRunning (the (start [failing_step, failing_step, failing_step, good_step]
                            (controller_at_depth 3)))
   \<and> run_status (the (start [failing_step, failing_step, failing_step, good_step]
                            (controller_at_depth 3))) = ''running''
   \<and> last (console (the (start [failing_step, failing_step, failing_step, good_step]
                               (controller_at_depth 3)))) = SessionPaused"
proof -
  have a: "isRunning (ctl third_error)" "3 \<le> consecutiveErrors third_error + 1"
    "consecutiveErrors third_error = 2"
    by (simp_all add: third_error_def)
  have b: "\<not> step_errs good_step"
    by (simp add: step_errs_def good_step_def)
  have c: "\<not> isRunning (controller_at_depth 3)" "runId (controller_at_depth 3) \<noteq> []"
    by (simp_all add: controller_at_depth_fields)
  obtain g' where d:
    "start [failing_step, failing_step, failing_step, good_step] (controller_at_depth 3) = Some g'"
    using three_failures_return by blast
  show ?thesis
    using a b c d step_errs_failing_step sample_steps_not_stopped
      controller_at_depth_fields(3) [of 3]
      consecutive_error_policy [of failing_step third_error "[good_step]"
        "controller_at_depth 3" "[failing_step, failing_step, failing_step, good_step]" g']
      consecutive_error_policy [of good_step third_error "[]"
        "controller_at_depth 3" "[]" g']
    by simp
qed


subsection \<open>Semantic memory: max-merge of the exploration level\<close>

lemma find_map_same_test:
  assumes "\<And>x. P (f x) = P x"
  shows "find P (map f xs) = map_option f (find P xs)"
  using assms by (induction xs) simp_all

lemma find_append_single:
  "find P xs = None \<Longrightarrow> find P (xs @ [x]) = (if P x then Some x else None)"
  by (induction xs) (simp_all split: if_splits)

lemma find_by_name_None:
  "(find (\<lambda>row. sc_name row = n) t = None) = (n \<notin> set (map sc_name t))"
  by (induction t) auto

lemma find_by_name_Some:
  "find (\<lambda>row. sc_name row = n) t = Some r \<Longrightarrow> sc_name r = n \<and> n \<in> set (map sc_name t)"
  by (induction t) (auto split: if_splits)

lemma level_after_update:
  "map_option sc_exploration_level
     (find (\<lambda>row. sc_name row = n)
        (map (\<lambda>row. if sc_name row = n
                    then row\<lparr>sc_definition := d, sc_related_concepts := rc,
                             sc_exploration_level := max (sc_exploration_level row) l,
                             sc_updated_at := u\<rparr>
                    else row) t))
   = map_option (\<lambda>row. max (sc_exploration_level row) l) (find (\<lambda>row. sc_name row = n) t)"
  by (induction t) simp_all

lemma level_after_insert:
  "n \<notin> set (map sc_name t) \<Longrightarrow> sc_name x = n \<Longrightarrow>
     map_option sc_exploration_level (find (\<lambda>row. sc_name row = n) (t @ [x]))
       = Some (sc_exploration_level x)"
proof -
  assume a: "n \<notin> set (map sc_name t)" and b: "sc_name x = n"
  from a have "find (\<lambda>row. sc_name row = n) t = None"
    by (simp add: find_by_name_None)
  from find_append_single [OF this, of x] b
  have "find (\<lambda>row. sc_name row = n) (t @ [x]) = Some x"
    by simp
  then show ?thesis
    by simp
qed

lemma upsert_semantic_concept_level:
  assumes "upsert_semantic_concept x t = Inr t'" and "n = sc_name x"
  shows "map_option sc_exploration_level (find (\<lambda>row. sc_name row = n) t') =
           Some (case map_option sc_exploration_level (find (\<lambda>row. sc_name row = n) t) of
                   None \<Rightarrow> sc_exploration_level x
                 | Some l \<Rightarrow> max l (sc_exploration_level x))"
proof (cases "n \<in> set (map sc_name t)")
  case True
  with assms have t': "t' = map (\<lambda>row. if sc_name row = n
              then row\<lparr>sc_definition := sc_definition x,
                       sc_related_concepts := sc_related_concepts x,
                       sc_exploration_level := max (sc_exploration_level row) (sc_exploration_level x),
                       sc_updated_at := sc_updated_at x\<rparr>
              else row) t"
    by (simp add: upsert_semantic_concept_def split: if_splits)
  from True obtain r where r: "find (\<lambda>row. sc_name row = n) t = Some r"
    by (cases "find (\<lambda>row. sc_name row = n) t") (simp_all add: find_by_name_None)
  show ?thesis
    unfolding t' level_after_update r by simp
next
  case False
  with assms have t': "t' = t @ [x]"
    by (simp add: upsert_semantic_concept_def split: if_splits)
  from False have none: "find (\<lambda>row. sc_name row = n) t = None"
    by (simp add: find_by_name_None)
  from level_after_insert [OF False] assms(2) show ?thesis
    unfolding t' none by simp
qed

lemma storeSemanticMemory_level:
  assumes "storeSemanticMemory env c src st = Inr st'"
  shows "stored_level st' (pc_name c) =
           Some (case stored_level st (pc_name c) of
                   None \<Rightarrow> pc_explorationLevel c
                 | Some l \<Rightarrow> max l (pc_explorationLevel c))"
proof -
  let ?x = "\<lparr>sc_id = st_uuid env, sc_name = pc_name c, sc_definition = pc_definition c,
             sc_related_concepts = pc_relatedConcepts c, sc_sources = pc_sources c,
             sc_exploration_level = pc_explorationLevel c,
             sc_created_at = st_now env, sc_updated_at = st_now env\<rparr>"
  from assms obtain t' where u: "upsert_semantic_concept ?x (semantic_concepts st) = Inr t'"
    and t': "semantic_concepts st' = t'"
    by (auto simp add: storeSemanticMemory_def Let_def split: if_splits sum.splits)
  from upsert_semantic_concept_level [OF u, of "pc_name c"]
  have "map_option sc_exploration_level (find (\<lambda>row. sc_name row = pc_name c) t') =
          Some (case map_option sc_exploration_level
                      (find (\<lambda>row. sc_name row = pc_name c) (semantic_concepts st)) of
                  None \<Rightarrow> pc_explorationLevel c
                | Some l \<Rightarrow> max l (pc_explorationLevel c))"
    by (simp only: concept_row.select_convs)
  then show ?thesis
    unfolding stored_level_def t' .
qed

lemma storeSemanticMemory_succeeds:
  assumes "st_db_up env" and "1 \<le> pc_explorationLevel c" and "pc_explorationLevel c \<le> 10"
    and "stored_level st (pc_name c) = Some l"
  shows "\<exists>st'. storeSemanticMemory env c src st = Inr st'"
proof -
  from assms(4) have "pc_name c \<in> set (map sc_name (semantic_concepts st))"
    by (auto simp add: stored_level_def dest: find_by_name_Some)
  with assms(1-3) show ?thesis
    by (simp add: storeSemanticMemory_def upsert_semantic_concept_def Let_def split: sum.splits)
qed

text \<open>
  C7. After a successful \<open>storeSemanticMemory\<close> for a concept name the relational store
  holds a level \<open>L\<close> for that name. A second call with the same name and a level within
  1 to 10, the store being reachable, succeeds and leaves \<open>L\<close> when the new level is not
  higher and stores the new level when it is higher; the stored level never decreases.
\<close>

theorem storeSemanticMemory_max_merge:
  assumes "storeSemanticMemory env1 c1 src1 st0 = Inr st1"
    and "pc_name c2 = pc_name c1"
    and "st_db_up env2"
    and "1 \<le> pc_explorationLevel c2" and "pc_explorationLevel c2 \<le> 10"
  shows "\<exists>L st2. stored_level st1 (pc_name c1) = Some L
           \<and> pc_explorationLevel c1 \<le> L
           \<and> storeSemanticMemory env2 c2 src2 st1 = Inr st2
           \<and> stored_level st2 (pc_name c1)
               = Some (if pc_explorationLevel c2 \<le> L then L else pc_explorationLevel c2)
           \<and> L \<le> the (stored_level st2 (pc_name c1))"
proof -
  from storeSemanticMemory_level [OF assms(1)]
  obtain L where L: "stored_level st1 (pc_name c1) = Some L" and ge: "pc_explorationLevel c1 \<le> L"
    by (cases "stored_level st0 (pc_name c1)") auto
  from L assms(2) have "stored_level st1 (pc_name c2) = Some L" by simp
  from storeSemanticMemory_succeeds [OF assms(3-5) this]
  obtain st2 where st2: "storeSemanticMemory env2 c2 src2 st1 = Inr st2" by blast
  from storeSemanticMemory_level [OF st2] L assms(2)
  have "stored_level st2 (pc_name c1) = Some (max L (pc_explorationLevel c2))" by simp
  with L ge st2 show ?thesis by (auto simp add: max_def)
qed

lemma first_store:
  "storeSemanticMemory (store_call ''u1'') (qualia_concept 5) searched empty_store
     = Inr qualia_stored"
  by (simp add: storeSemanticMemory_def upsert_semantic_concept_def store_call_def
      qualia_concept_def empty_store_def qualia_stored_def)

theorem storeSemanticMemory_max_merge_witness:
  "storeSemanticMemory (store_call ''u1'') (qualia_concept 5) searched empty_store
     = Inr qualia_stored
   \<and> stored_level qualia_stored ''qualia'' = Some 5
   \<and> (\<exists>st2. storeSemanticMemory (store_call ''u2'') (qualia_concept 3) inferred qualia_stored
               = Inr st2
             \<and> stored_level st2 ''qualia'' = Some 5)
   \<and> (\<exists>st2. storeSemanticMemory (store_call ''u3'') (qualia_concept 8) discovered qualia_stored
               = Inr st2
             \<and> stored_level st2 ''qualia'' = Some 8)"
proof -
  have lvl: "stored_level qualia_stored ''qualia'' = Some 5"
    by (simp add: stored_level_def qualia_stored_def)
  have name: "pc_name (qualia_concept l) = ''qualia''" "pc_explorationLevel (qualia_concept l) = l"
    for l
    by (simp_all add: qualia_concept_def)
  have up: "st_db_up (store_call u)" for u
    by (simp add: store_call_def)
  from storeSemanticMemory_max_merge [OF first_store, of "qualia_concept 3" "store_call ''u2''" inferred]
  have low: "\<exists>st2. storeSemanticMemory (store_call ''u2'') (qualia_concept 3) inferred qualia_stored
               = Inr st2 \<and> stored_level st2 ''qualia'' = Some 5"
    using lvl by (auto simp add: name up)
  from storeSemanticMemory_max_merge [OF first_store, of "qualia_concept 8" "store_call ''u3''" discovered]
  have high: "\<exists>st2. storeSemanticMemory (store_call ''u3'') (qualia_concept 8) discovered qualia_stored
               = Inr st2 \<and> stored_level st2 ''qualia'' = Some 8"
    using lvl by (auto simp add: name up)
  from first_store lvl low high show ?thesis by blast
qed


subsection \<open>Retrieval: the fallback to the relational store\<close>

lemma search_type_no_hits:
  "rv_search env t k = Inr [] \<Longrightarrow> search_type env k t = []"
  by (simp add: search_type_def)

lemma no_candidates:
  assumes "\<forall>t \<in> set types. rv_search env t k = Inr []"
  shows "concat (map (search_type env k) types) = []"
  using assms by (induction types) (simp_all add: search_type_no_hits)

lemma slice_from0_Nil [simp]: "slice_from0 n [] = []"
  by (simp add: slice_from0_def)

lemma sql_fallback_rows:
  assumes "sql_fallback ilike up table types pattern limit = Inr rows"
  shows "set rows \<subseteq> {row \<in> set table. mr_type row \<in> set types \<and> ilike (mr_content row) pattern}"
    and "sorted_wrt (\<lambda>a b. mr_timestamp b \<le> mr_timestamp a) rows"
    and "int (length rows) \<le> max 0 limit"
proof -
  let ?matches = "filter (\<lambda>row. mr_type row \<in> set types \<and> ilike (mr_content row) pattern) table"
  from assms have rows: "rows = take (nat limit) (sort_key (\<lambda>row. - mr_timestamp row) ?matches)"
    and "0 \<le> limit"
    by (simp_all add: sql_fallback_def split: if_splits)
  have "set rows \<subseteq> set (sort_key (\<lambda>row. - mr_timestamp row) ?matches)"
    unfolding rows by (rule set_take_subset)
  then show "set rows \<subseteq> {row \<in> set table. mr_type row \<in> set types \<and> ilike (mr_content row) pattern}"
    by auto
  have "sorted (map (\<lambda>row. - mr_timestamp row) (sort_key (\<lambda>row. - mr_timestamp row) ?matches))"
    by (rule sorted_sort_key)
  then have "sorted (take (nat limit)
                (map (\<lambda>row. - mr_timestamp row) (sort_key (\<lambda>row. - mr_timestamp row) ?matches)))"
    by (rule sorted_wrt_take)
  then have "sorted (map (\<lambda>row. - mr_timestamp row) rows)"
    unfolding rows by (simp only: take_map)
  then show "sorted_wrt (\<lambda>a b. mr_timestamp b \<le> mr_timestamp a) rows"
    by (simp add: sorted_map)
  from \<open>0 \<le> limit\<close> show "int (length rows) \<le> max 0 limit"
    unfolding rows by simp
qed

lemma sql_fallback_no_match:
  assumes "\<forall>row \<in> set table. \<not> ilike (mr_content row) pattern"
  shows "sql_fallback ilike up table types pattern limit = Inr rows \<Longrightarrow> rows = []"
proof -
  from assms have "filter (\<lambda>row. mr_type row \<in> set types \<and> ilike (mr_content row) pattern) table = []"
    by (induction table) simp_all
  then show "sql_fallback ilike up table types pattern limit = Inr rows \<Longrightarrow> rows = []"
    by (auto simp add: sql_fallback_def split: if_splits)
qed

lemma retrieve_without_candidates:
  assumes "rv_embedding env = Inr v" and "v \<noteq> []"
    and "\<forall>t \<in> set (default_types types_arg).
           rv_search env t (ceil_div (default_limit limit_arg) (length (default_types types_arg)))
             = Inr []"
  shows "retrieveRelevantMemories env query wm types_arg limit_arg =
           Inr (case sql_fallback (rv_ilike env) (rv_db_up env) (rv_memories env)
                       (default_types types_arg) (''%'' @ query @ ''%'') (default_limit limit_arg) of
                  Inr rows \<Rightarrow> map row_to_memory rows
                | Inl err \<Rightarrow> [])"
proof -
  have none: "concat (map (search_type env (ceil_div (default_limit limit_arg)
                                             (length (default_types types_arg))))
                          (default_types types_arg)) = []"
    by (rule no_candidates [OF assms(3)])
  show ?thesis
    unfolding retrieveRelevantMemories_def Let_def none
    using assms(1,2) by (simp split: sum.splits)
qed

text \<open>
  C3. When the embedding of the query is produced and the vector search returns no match
  for any of the requested types, \<open>retrieveRelevantMemories\<close> returns normally. Its result
  is what the fallback query yields, each row turned into a memory with relevance 0.5:
  rows of the requested types whose content matches the pattern \<open>%query%\<close>, most recent
  first, at most \<open>limit\<close> of them. It is empty when no stored content matches (and when
  the store refuses the query).
\<close>

theorem retrieval_falls_back_to_store:
  assumes "rv_embedding env = Inr v" and "v \<noteq> []"
    and "\<forall>t \<in> set (default_types types_arg).
           rv_search env t (ceil_div (default_limit limit_arg) (length (default_types types_arg)))
             = Inr []"
  shows "\<exists>ms. retrieveRelevantMemories env query wm types_arg limit_arg = Inr ms
          \<and> ms = (case sql_fallback (rv_ilike env) (rv_db_up env) (rv_memories env)
                          (default_types types_arg) (''%'' @ query @ ''%'')
                          (default_limit limit_arg) of
                    Inr rows \<Rightarrow> map row_to_memory rows
                  | Inl err \<Rightarrow> [])
          \<and> (\<forall>m \<in> set ms. m_relevanceScore m = Some (1/2)
                \<and> (\<exists>row \<in> set (rv_memories env). m = row_to_memory row
                      \<and> mr_type row \<in> set (default_types types_arg)
                      \<and> rv_ilike env (mr_content row) (''%'' @ query @ ''%'')))
          \<and> sorted_wrt (\<lambda>a b. m_timestamp b \<le> m_timestamp a) ms
          \<and> int (length ms) \<le> max 0 (default_limit limit_arg)
          \<and> ((\<forall>row \<in> set (rv_memories env). \<not> rv_ilike env (mr_content row) (''%'' @ query @ ''%''))
               \<longrightarrow> ms = [])"
proof (cases "sql_fallback (rv_ilike env) (rv_db_up env) (rv_memories env)
                (default_types types_arg) (''%'' @ query @ ''%'') (default_limit limit_arg)")
  case (Inl err)
  with retrieve_without_candidates [OF assms, of query wm] show ?thesis
    by simp
next
  case (Inr rows)
  have score: "m_relevanceScore (row_to_memory row) = Some (1/2)"
    and ts: "m_timestamp (row_to_memory row) = mr_timestamp row" for row
    by (simp_all add: row_to_memory_def)
  from sql_fallback_rows(1) [OF Inr]
  have src: "\<forall>m \<in> set (map row_to_memory rows). m_relevanceScore m = Some (1/2)
                \<and> (\<exists>row \<in> set (rv_memories env). m = row_to_memory row
                      \<and> mr_type row \<in> set (default_types types_arg)
                      \<and> rv_ilike env (mr_content row) (''%'' @ query @ ''%''))"
    using score by auto
  from sql_fallback_rows(2) [OF Inr]
  have ord: "sorted_wrt (\<lambda>a b. m_timestamp b \<le> m_timestamp a) (map row_to_memory rows)"
    by (simp add: sorted_wrt_map ts)
  from sql_fallback_rows(3) [OF Inr]
  have len: "int (length (map row_to_memory rows)) \<le> max 0 (default_limit limit_arg)"
    by simp
  have none: "(\<forall>row \<in> set (rv_memories env). \<not> rv_ilike env (mr_content row) (''%'' @ query @ ''%''))
               \<longrightarrow> map row_to_memory rows = []"
    using sql_fallback_no_match [OF _ Inr] by simp
  from retrieve_without_candidates [OF assms, of query wm] Inr
  have "retrieveRelevantMemories env query wm types_arg limit_arg
          = Inr (map row_to_memory rows)"
    by simp
  with Inr src ord len none show ?thesis
    by simp
qed


lemma lower_samples:
  "toLowerCase ''Mind'' = ''mind''" "toLowerCase ''the mind'' = ''the mind''"
  "toLowerCase ''a tree'' = ''a tree''" "toLowerCase ''mind'' = ''mind''"
  by code_simp+

lemma fallback_sample:
  "sql_fallback plain_ilike True memory_rows [''episodic''] ''%mind%'' 5
     = Inr [memory_rows ! 2, memory_rows ! 0]"
  by (simp add: sql_fallback_def plain_ilike_def memory_rows_def lower_samples sublist_code)

lemma empty_search_env_fallback:
  "sql_fallback (rv_ilike empty_search_env) (rv_db_up empty_search_env)
     (rv_memories empty_search_env) (default_types (Some [''episodic'']))
     (''%'' @ ''mind'' @ ''%'') (default_limit (Some 5))
   = Inr [memory_rows ! 2, memory_rows ! 0]"
proof -
  have "''%'' @ ''mind'' @ ''%'' = ''%mind%''" by simp
  then show ?thesis
    by (simp only: empty_search_env_def retrieval_env.select_convs default_types_def
        default_limit_def option.case fallback_sample)
qed

theorem retrieval_falls_back_to_store_witness:
  "rv_embedding empty_search_env = Inr [1/10]
   \<and> (\<exists>ms. retrieveRelevantMemories empty_search_env ''mind'' blank_context
               (Some [''episodic'']) (Some 5) = Inr ms
            \<and> map m_id ms = [''m3'', ''m1'']
            \<and> map m_timestamp ms = [9, 5]
            \<and> map m_relevanceScore ms = [Some (1/2), Some (1/2)])"
proof -
  have a: "rv_embedding empty_search_env = Inr [1/10]" and b: "[1/10 :: rat] \<noteq> []"
    by (simp_all add: empty_search_env_def)
  have c: "\<forall>t \<in> set (default_types (Some [''episodic''])).
             rv_search empty_search_env t
               (ceil_div (default_limit (Some 5)) (length (default_types (Some [''episodic'']))))
             = Inr []"
    by (simp add: empty_search_env_def)
  from retrieval_falls_back_to_store [OF a b c, of "''mind''" blank_context]
  have "\<exists>ms. retrieveRelevantMemories empty_search_env ''mind'' blank_context
               (Some [''episodic'']) (Some 5) = Inr ms
            \<and> ms = [row_to_memory (memory_rows ! 2), row_to_memory (memory_rows ! 0)]"
    unfolding empty_search_env_fallback sum.case
    by (elim exE conjE) (rule exI, rule conjI, assumption, simp only: list.map)
  then obtain ms where ms: "retrieveRelevantMemories empty_search_env ''mind'' blank_context
               (Some [''episodic'']) (Some 5) = Inr ms"
    and eq: "ms = [row_to_memory (memory_rows ! 2), row_to_memory (memory_rows ! 0)]"
    by (elim exE conjE)
  from eq have "map m_id ms = [''m3'', ''m1''] \<and> map m_timestamp ms = [9, 5]
            \<and> map m_relevanceScore ms = [Some (1/2), Some (1/2)]"
    by (simp add: row_to_memory_def memory_rows_def)
  with a ms show ?thesis
    by (intro conjI exI [of _ ms]) simp_all
qed

end
